theory Spec2Isabelle
  imports Complex_Main "HOL-Library.AList"
begin

section \<open>The incremental translation processor: JSON trees\<close>

text \<open>
  This theory embeds the diff/merge engine of
  \<^verbatim>\<open>scripts/process-translation-claude-fixed.js\<close>, class
  \<^verbatim>\<open>IncrementalTranslationProcessor\<close>: \<^verbatim>\<open>flattenObject\<close>,
  \<^verbatim>\<open>unflattenObject\<close>, \<^verbatim>\<open>setNestedValue\<close>, \<^verbatim>\<open>detectFileChanges\<close>,
  \<^verbatim>\<open>detectChanges\<close>, \<^verbatim>\<open>translateChanges\<close>, \<^verbatim>\<open>deepMerge\<close>,
  \<^verbatim>\<open>deleteNestedKey\<close>, \<^verbatim>\<open>mergeTranslations\<close>, \<^verbatim>\<open>saveTranslations\<close> and
  the driver \<^verbatim>\<open>translateIncremental\<close>.

  A value is what \<^verbatim>\<open>JSON.parse\<close> produces. A number is the rational it denotes
  (\<^verbatim>\<open>-0\<close> and \<^verbatim>\<open>0\<close> are the same number, as for \<^verbatim>\<open>===\<close>). An array carries
  the identity of the JavaScript object that holds it, since \<^verbatim>\<open>!==\<close> on two
  arrays compares identities and not contents. A plain object is the list of its
  own properties in insertion order; its identity is not part of the value, since
  the code never compares plain objects (every one of them is descended into).
  The identity of plain objects matters for in-place mutation only, which the
  store model of the last section treats.

  Scope of the property access \<^verbatim>\<open>v[k]\<close>: on a plain object it is the lookup
  of the own property \<open>k\<close>; on an array or a primitive it is \<^verbatim>\<open>undefined\<close>.
  JavaScript agrees for every key that is not an array index, \<^verbatim>\<open>length\<close> or
  the name of an inherited member (\<^verbatim>\<open>constructor\<close>, \<^verbatim>\<open>toString\<close>, ...);
  such keys, and the numeric reordering of index-like keys by
  \<^verbatim>\<open>Object.entries\<close>, are outside this model. Console output is left out.
\<close>

datatype json =
    JNull
  | JBool bool
  | JNum rat
  | JStr string
  | JArr nat "json list"
  | JObj "(string \<times> json) list"

type_synonym obj = "(string \<times> json) list"

text \<open>\<^verbatim>\<open>!v\<close> is \<open>\<not> truthy v\<close>; a missing property is \<^verbatim>\<open>undefined\<close>, which is falsy.\<close>

fun truthy :: "json \<Rightarrow> bool" where
  "truthy JNull = False"
| "truthy (JBool b) = b"
| "truthy (JNum n) = (n \<noteq> 0)"
| "truthy (JStr s) = (s \<noteq> [])"
| "truthy (JArr i xs) = True"
| "truthy (JObj es) = True"

text \<open>
  \<^verbatim>\<open>a === b\<close>. Two arrays are equal when they are the same object. Plain objects
  would be compared by identity as well; the code never does (see
  \<open>flattenObject_no_object_leaf\<close> below), and the model answers \<open>False\<close>.
\<close>

fun strictEq :: "json \<Rightarrow> json \<Rightarrow> bool" where
  "strictEq JNull JNull = True"
| "strictEq (JBool a) (JBool b) = (a = b)"
| "strictEq (JNum a) (JNum b) = (a = b)"
| "strictEq (JStr a) (JStr b) = (a = b)"
| "strictEq (JArr i xs) (JArr j ys) = (i = j)"
| "strictEq a b = False"

text \<open>
  The structure of a value: the value with the identities of its arrays erased.
  Two values are structurally identical when their shapes are equal.
\<close>

fun shape :: "json \<Rightarrow> json" where
  "shape (JArr i xs) = JArr 0 (map shape xs)"
| "shape (JObj es) = JObj (map (\<lambda>(k, v). (k, shape v)) es)"
| "shape v = v"

definition shapeObj :: "obj \<Rightarrow> obj" where
  "shapeObj es = map (\<lambda>(k, v). (k, shape v)) es"

section \<open>Flattener\<close>

text \<open>\<^verbatim>\<open>prefix ? `${prefix}.${key}` : key\<close>: the empty string is falsy.\<close>

definition joinKey :: "string \<Rightarrow> string \<Rightarrow> string" where
  "joinKey prefix key = (if prefix \<noteq> [] then prefix @ ''.'' @ key else key)"

text \<open>\<^verbatim>\<open>Object.assign(result, src)\<close>: every own property of \<open>src\<close>, in order.\<close>

definition objectAssign :: "obj \<Rightarrow> obj \<Rightarrow> obj" where
  "objectAssign result src = fold (\<lambda>(k, v). AList.update k v) src result"

text \<open>
  The loop of \<^verbatim>\<open>flattenObject\<close> over \<^verbatim>\<open>Object.entries(obj)\<close>, with the
  \<open>result\<close> built so far. A plain object is descended into; null, arrays and
  primitives are stored at the dotted key.
\<close>

fun flattenLoop :: "obj \<Rightarrow> string \<Rightarrow> obj \<Rightarrow> obj" where
  "flattenLoop [] prefix result = result"
| "flattenLoop ((key, JObj sub) # rest) prefix result =
     flattenLoop rest prefix
       (objectAssign result (flattenLoop sub (joinKey prefix key) []))"
| "flattenLoop ((key, value) # rest) prefix result =
     flattenLoop rest prefix (AList.update (joinKey prefix key) value result)"

definition flattenObject :: "obj \<Rightarrow> string \<Rightarrow> obj" where
  "flattenObject obj prefix = flattenLoop obj prefix []"

text \<open>\<^verbatim>\<open>key.split('.')\<close>: never empty; \<^verbatim>\<open>''.split('.')\<close> is \<^verbatim>\<open>['']\<close>.\<close>

fun splitDot :: "string \<Rightarrow> string list" where
  "splitDot [] = [[]]"
| "splitDot (c # cs) =
     (if c = CHR ''.'' then [] # splitDot cs
      else (case splitDot cs of [] \<Rightarrow> [[c]] | w # ws \<Rightarrow> (c # w) # ws))"

text \<open>
  What the engine can raise. The class body is strict-mode code, so creating a
  property on a primitive raises a \<^verbatim>\<open>TypeError\<close>. Storing a named property on
  an array succeeds in JavaScript, but the result is no JSON tree any more: the
  model stops with \<open>ArrayProperty\<close> there. \<open>RangeError\<close> is the exhausted call
  stack; only the store model of the last section, where recursion follows
  references, can meet it. The remaining errors belong to the boundary with the
  translation service.
\<close>

datatype error =
    TypeError
  | ArrayProperty
  | ApiError
  | RangeError
  | JsonParseError
  | MissingLanguage string

text \<open>
  The walk shared by \<^verbatim>\<open>setNestedValue\<close> and \<^verbatim>\<open>unflattenObject\<close>, on the
  keys still to go: a missing or falsy intermediate is replaced by \<^verbatim>\<open>{}\<close>, a
  truthy one is entered.
\<close>

fun setPath :: "obj \<Rightarrow> string list \<Rightarrow> json \<Rightarrow> error + obj" where
  "setPath cur [] value = Inr cur"
| "setPath cur [k] value = Inr (AList.update k value cur)"
| "setPath cur (k # ks) value =
     (case map_of cur k of
        Some (JObj sub) \<Rightarrow>
          (case setPath sub ks value of
             Inl e \<Rightarrow> Inl e
           | Inr sub' \<Rightarrow> Inr (AList.update k (JObj sub') cur))
      | Some (JArr i xs) \<Rightarrow> Inl ArrayProperty
      | Some child \<Rightarrow>
          (if truthy child then Inl TypeError
           else (case setPath [] ks value of
                   Inl e \<Rightarrow> Inl e
                 | Inr sub' \<Rightarrow> Inr (AList.update k (JObj sub') cur)))
      | None \<Rightarrow>
          (case setPath [] ks value of
             Inl e \<Rightarrow> Inl e
           | Inr sub' \<Rightarrow> Inr (AList.update k (JObj sub') cur)))"

definition setNestedValue :: "obj \<Rightarrow> string \<Rightarrow> json \<Rightarrow> error + obj" where
  "setNestedValue obj key value = setPath obj (splitDot key) value"

fun unflattenLoop :: "obj \<Rightarrow> obj \<Rightarrow> error + obj" where
  "unflattenLoop [] result = Inr result"
| "unflattenLoop ((key, value) # rest) result =
     (case setPath result (splitDot key) value of
        Inl e \<Rightarrow> Inl e
      | Inr result' \<Rightarrow> unflattenLoop rest result')"

definition unflattenObject :: "obj \<Rightarrow> error + obj" where
  "unflattenObject flatObj = unflattenLoop flatObj []"

section \<open>Change detector\<close>

record fileChanges =
  hasChangesF :: bool
  newKeysF :: "(string \<times> json) list"
  modifiedKeysF :: "(string \<times> json \<times> json) list"
  deletedKeysF :: "string list"

definition noFileChanges :: fileChanges where
  "noFileChanges =
     \<lparr>hasChangesF = False, newKeysF = [], modifiedKeysF = [], deletedKeysF = []\<rparr>"

text \<open>
  The first loop of \<^verbatim>\<open>detectFileChanges\<close>, over the entries of the current flat
  map: \<^verbatim>\<open>hasOwnProperty\<close> is the lookup, \<^verbatim>\<open>!==\<close> is \<open>\<not> strictEq\<close>. A modified
  entry is \<open>(key, oldValue, newValue)\<close>.
\<close>

fun newOrModified :: "obj \<Rightarrow> obj \<Rightarrow> fileChanges \<Rightarrow> fileChanges" where
  "newOrModified previousFlat [] c = c"
| "newOrModified previousFlat ((key, value) # rest) c =
     newOrModified previousFlat rest
       (case map_of previousFlat key of
          None \<Rightarrow> c\<lparr>newKeysF := newKeysF c @ [(key, value)], hasChangesF := True\<rparr>
        | Some old \<Rightarrow>
            if \<not> strictEq old value
            then c\<lparr>modifiedKeysF := modifiedKeysF c @ [(key, old, value)],
                   hasChangesF := True\<rparr>
            else c)"

text \<open>The second loop, over the keys of the previous flat map.\<close>

fun deletedLoop :: "obj \<Rightarrow> string list \<Rightarrow> fileChanges \<Rightarrow> fileChanges" where
  "deletedLoop currentFlat [] c = c"
| "deletedLoop currentFlat (key # rest) c =
     deletedLoop currentFlat rest
       (if map_of currentFlat key = None
        then c\<lparr>deletedKeysF := deletedKeysF c @ [key], hasChangesF := True\<rparr>
        else c)"

definition detectFileChanges :: "obj \<Rightarrow> obj \<Rightarrow> fileChanges" where
  "detectFileChanges previousContent currentContent =
     (let previousFlat = flattenObject previousContent [];
          currentFlat = flattenObject currentContent []
      in deletedLoop currentFlat (map fst previousFlat)
           (newOrModified previousFlat currentFlat noFileChanges))"

text \<open>
  A source tree maps document names to documents. A document is a plain object
  (the content of one \<^verbatim>\<open>.json\<close> file of the base language), so
  \<^verbatim>\<open>previousFiles[fileName]\<close> is truthy exactly when the name is present.
\<close>

type_synonym files = "(string \<times> obj) list"

record changes =
  hasChanges :: bool
  newFiles :: "string list"
  modifiedFiles :: "string list"
  newKeys :: "(string \<times> (string \<times> json) list) list"
  modifiedKeys :: "(string \<times> (string \<times> json \<times> json) list) list"
  deletedKeys :: "(string \<times> string list) list"

definition noChanges :: changes where
  "noChanges =
     \<lparr>hasChanges = False, newFiles = [], modifiedFiles = [],
      newKeys = [], modifiedKeys = [], deletedKeys = []\<rparr>"

fun newFilesLoop :: "files \<Rightarrow> string list \<Rightarrow> changes \<Rightarrow> changes" where
  "newFilesLoop previousFiles [] c = c"
| "newFilesLoop previousFiles (fileName # rest) c =
     newFilesLoop previousFiles rest
       (if map_of previousFiles fileName = None
        then c\<lparr>newFiles := newFiles c @ [fileName], hasChanges := True\<rparr>
        else c)"

fun existingFilesLoop :: "files \<Rightarrow> files \<Rightarrow> changes \<Rightarrow> changes" where
  "existingFilesLoop previousFiles [] c = c"
| "existingFilesLoop previousFiles ((fileName, currentContent) # rest) c =
     existingFilesLoop previousFiles rest
       (case map_of previousFiles fileName of
          None \<Rightarrow> c
        | Some previousContent \<Rightarrow>
            (let fileChanges = detectFileChanges previousContent currentContent
             in if hasChangesF fileChanges
                then c\<lparr>modifiedFiles := modifiedFiles c @ [fileName],
                       newKeys := AList.update fileName (newKeysF fileChanges) (newKeys c),
                       modifiedKeys :=
                         AList.update fileName (modifiedKeysF fileChanges) (modifiedKeys c),
                       deletedKeys :=
                         AList.update fileName (deletedKeysF fileChanges) (deletedKeys c),
                       hasChanges := True\<rparr>
                else c))"

definition detectChanges :: "files \<Rightarrow> files \<Rightarrow> changes" where
  "detectChanges previousFiles currentFiles =
     existingFilesLoop previousFiles currentFiles
       (newFilesLoop previousFiles (map fst currentFiles) noChanges)"

section \<open>Delta builder\<close>

text \<open>
  \<^verbatim>\<open>translateChanges\<close> reads the base files again; \<open>currentFiles\<close> is what that
  read returns. \<open>contentToTranslate\<close> is built in three loops: the new files as
  complete trees, then for every modified file its new keys and its modified keys
  (with the new value), each through \<^verbatim>\<open>setNestedValue\<close>. A name of
  \<open>newFiles\<close> that the tree read again lacks would be stored as \<^verbatim>\<open>undefined\<close>,
  which \<^verbatim>\<open>JSON.stringify\<close> drops from the request: the model leaves it out.
\<close>

fun addNewFiles :: "files \<Rightarrow> string list \<Rightarrow> files \<Rightarrow> files" where
  "addNewFiles currentFiles [] content = content"
| "addNewFiles currentFiles (fileName # rest) content =
     addNewFiles currentFiles rest
       (case map_of currentFiles fileName of
          None \<Rightarrow> content
        | Some doc \<Rightarrow> AList.update fileName doc content)"

fun setAll :: "obj \<Rightarrow> (string \<times> json) list \<Rightarrow> error + obj" where
  "setAll doc [] = Inr doc"
| "setAll doc ((key, value) # rest) =
     (case setNestedValue doc key value of
        Inl e \<Rightarrow> Inl e
      | Inr doc' \<Rightarrow> setAll doc' rest)"

definition keysOrNone :: "(string \<times> 'a list) list \<Rightarrow> string \<Rightarrow> 'a list" where
  "keysOrNone table fileName = (case map_of table fileName of None \<Rightarrow> [] | Some ks \<Rightarrow> ks)"

fun addModifiedFiles :: "changes \<Rightarrow> string list \<Rightarrow> files \<Rightarrow> error + files" where
  "addModifiedFiles c [] content = Inr content"
| "addModifiedFiles c (fileName # rest) content =
     (let doc0 = (case map_of content fileName of None \<Rightarrow> [] | Some doc \<Rightarrow> doc)
      in case setAll doc0 (keysOrNone (newKeys c) fileName) of
           Inl e \<Rightarrow> Inl e
         | Inr doc1 \<Rightarrow>
             (case setAll doc1
                     (map (\<lambda>(key, oldValue, newValue). (key, newValue))
                        (keysOrNone (modifiedKeys c) fileName)) of
                Inl e \<Rightarrow> Inl e
              | Inr doc2 \<Rightarrow> addModifiedFiles c rest (AList.update fileName doc2 content)))"

definition contentToTranslate :: "changes \<Rightarrow> files \<Rightarrow> error + files" where
  "contentToTranslate c currentFiles =
     addModifiedFiles c (modifiedFiles c) (addNewFiles currentFiles (newFiles c) [])"

text \<open>
  The answer of the translation service, parsed:
  language \<open>\<rightarrow>\<close> document name \<open>\<rightarrow>\<close> document. \<open>callClaude\<close> stands for the
  method of that name: the request goes out and the parsed answer or an error
  comes back.
\<close>

type_synonym translated = "(string \<times> files) list"

definition translateChanges ::
  "changes \<Rightarrow> files \<Rightarrow> (files \<Rightarrow> error + translated) \<Rightarrow> error + translated" where
  "translateChanges c currentFiles callClaude =
     (if \<not> hasChanges c then Inr []
      else (case contentToTranslate c currentFiles of
              Inl e \<Rightarrow> Inl e
            | Inr content \<Rightarrow> if content = [] then Inr [] else callClaude content))"

section \<open>Merger\<close>

text \<open>Decimal digits of an array index, for the keys of a spread array.\<close>

function showIndex :: "nat \<Rightarrow> string" where
  "showIndex n =
     (if n < 10 then [''0123456789'' ! n]
      else showIndex (n div 10) @ [''0123456789'' ! (n mod 10)])"
  by pat_completeness auto
termination
  by (relation "measure id") auto

text \<open>
  \<^verbatim>\<open>{ ...target }\<close>: the own properties of a plain object; of an array, its
  elements under their indices. \<^verbatim>\<open>deepMerge\<close> spreads nothing else.
\<close>

fun spreadProps :: "json \<Rightarrow> obj" where
  "spreadProps (JObj es) = es"
| "spreadProps (JArr i xs) = zip (map showIndex [0..<length xs]) xs"
| "spreadProps v = []"

text \<open>
  The loop of \<^verbatim>\<open>deepMerge\<close> over \<^verbatim>\<open>Object.entries(source)\<close>, on the spread
  copy \<open>result\<close>. The test on the new value excludes null and arrays; the test on
  \<^verbatim>\<open>result[key]\<close> is \<^verbatim>\<open>typeof result[key] === 'object' && result[key] !== null\<close>,
  which an array passes.
\<close>

fun deepMergeLoop :: "obj \<Rightarrow> obj \<Rightarrow> obj" where
  "deepMergeLoop [] result = result"
| "deepMergeLoop ((key, JObj sub) # rest) result =
     deepMergeLoop rest
       (AList.update key
          (case map_of result key of
             Some (JObj t) \<Rightarrow> JObj (deepMergeLoop sub (spreadProps (JObj t)))
           | Some (JArr i xs) \<Rightarrow> JObj (deepMergeLoop sub (spreadProps (JArr i xs)))
           | _ \<Rightarrow> JObj sub)
          result)"
| "deepMergeLoop ((key, value) # rest) result =
     deepMergeLoop rest (AList.update key value result)"

definition deepMerge :: "json \<Rightarrow> obj \<Rightarrow> obj" where
  "deepMerge target source = deepMergeLoop source (spreadProps target)"

text \<open>
  \<^verbatim>\<open>deleteNestedKey\<close> on the keys still to go. A missing or falsy intermediate
  returns at once. A truthy intermediate that is no plain object has none of the
  keys of this model, so the walk ends there without a change.
\<close>

fun deletePath :: "obj \<Rightarrow> string list \<Rightarrow> obj" where
  "deletePath cur [] = cur"
| "deletePath cur [k] = AList.delete k cur"
| "deletePath cur (k # ks) =
     (case map_of cur k of
        Some (JObj sub) \<Rightarrow> AList.update k (JObj (deletePath sub ks)) cur
      | _ \<Rightarrow> cur)"

definition deleteNestedKey :: "obj \<Rightarrow> string \<Rightarrow> obj" where
  "deleteNestedKey obj key = deletePath obj (splitDot key)"

text \<open>
  \<^verbatim>\<open>JSON.parse(JSON.stringify(v))\<close>: the same tree in new objects. \<open>n\<close> is the
  next unused array identity; the function returns the copy and the next unused
  identity after it.
\<close>

fun jsonClone :: "nat \<Rightarrow> json \<Rightarrow> json \<times> nat"
  and cloneList :: "nat \<Rightarrow> json list \<Rightarrow> json list \<times> nat"
  and cloneEntries :: "nat \<Rightarrow> obj \<Rightarrow> obj \<times> nat" where
  "jsonClone n (JArr i xs) = (case cloneList (Suc n) xs of (ys, m) \<Rightarrow> (JArr n ys, m))"
| "jsonClone n (JObj es) = (case cloneEntries n es of (fs, m) \<Rightarrow> (JObj fs, m))"
| "jsonClone n v = (v, n)"
| "cloneList n [] = ([], n)"
| "cloneList n (x # xs) =
     (case jsonClone n x of (y, m) \<Rightarrow>
        (case cloneList m xs of (ys, l) \<Rightarrow> (y # ys, l)))"
| "cloneEntries n [] = ([], n)"
| "cloneEntries n ((k, v) # es) =
     (case jsonClone n v of (w, m) \<Rightarrow>
        (case cloneEntries m es of (fs, l) \<Rightarrow> ((k, w) # fs, l)))"

fun cloneFiles :: "nat \<Rightarrow> files \<Rightarrow> files \<times> nat" where
  "cloneFiles n [] = ([], n)"
| "cloneFiles n ((fileName, doc) # rest) =
     (case cloneEntries n doc of (doc', m) \<Rightarrow>
        (case cloneFiles m rest of (rest', l) \<Rightarrow> ((fileName, doc') # rest', l)))"

fun cloneTranslations :: "nat \<Rightarrow> translated \<Rightarrow> translated \<times> nat" where
  "cloneTranslations n [] = ([], n)"
| "cloneTranslations n ((language, fs) # rest) =
     (case cloneFiles n fs of (fs', m) \<Rightarrow>
        (case cloneTranslations m rest of (rest', l) \<Rightarrow> ((language, fs') # rest', l)))"

text \<open>
  The body of \<^verbatim>\<open>mergeTranslations\<close> for one language, on the documents
  \<open>merged\<close> of that language: first the documents of the answer, then the
  deleted keys of every modified file.
\<close>

fun mergeNewFiles :: "files \<Rightarrow> files \<Rightarrow> files" where
  "mergeNewFiles [] merged = merged"
| "mergeNewFiles ((fileName, newContent) # rest) merged =
     mergeNewFiles rest
       (case map_of merged fileName of
          None \<Rightarrow> AList.update fileName newContent merged
        | Some doc \<Rightarrow> AList.update fileName (deepMerge (JObj doc) newContent) merged)"

fun applyDeletions :: "changes \<Rightarrow> string list \<Rightarrow> files \<Rightarrow> files" where
  "applyDeletions c [] merged = merged"
| "applyDeletions c (fileName # rest) merged =
     applyDeletions c rest
       (case (map_of (deletedKeys c) fileName, map_of merged fileName) of
          (Some dks, Some doc) \<Rightarrow> AList.update fileName (fold (\<lambda>k d. deleteNestedKey d k) dks doc) merged
        | _ \<Rightarrow> merged)"

definition mergeLanguage :: "translated \<Rightarrow> changes \<Rightarrow> files \<Rightarrow> string \<Rightarrow> files" where
  "mergeLanguage newTranslations c merged language =
     applyDeletions c (modifiedFiles c)
       (case map_of newTranslations language of
          None \<Rightarrow> merged
        | Some newFs \<Rightarrow> mergeNewFiles newFs merged)"

fun mergeLanguages :: "string list \<Rightarrow> translated \<Rightarrow> changes \<Rightarrow> translated \<Rightarrow> translated" where
  "mergeLanguages [] newTranslations c merged = merged"
| "mergeLanguages (language # rest) newTranslations c merged =
     mergeLanguages rest newTranslations c
       (AList.update language
          (mergeLanguage newTranslations c
             (case map_of merged language of None \<Rightarrow> [] | Some fs \<Rightarrow> fs) language)
          merged)"

text \<open>
  \<open>targetLanguages\<close> is the field \<^verbatim>\<open>this.targetLanguages\<close>, \<open>fresh\<close> the next
  unused array identity when the deep clone is taken.
\<close>

definition mergeTranslations ::
  "string list \<Rightarrow> nat \<Rightarrow> translated \<Rightarrow> translated \<Rightarrow> changes \<Rightarrow> translated" where
  "mergeTranslations targetLanguages fresh existingTranslations newTranslations c =
     mergeLanguages targetLanguages newTranslations c
       (fst (cloneTranslations fresh existingTranslations))"

section \<open>The translation service and the file system\<close>

text \<open>
  What comes back from the translation service: no successful HTTP answer, an
  answer that \<^verbatim>\<open>JSON.parse\<close> rejects, or a parsed tree. \<open>service\<close> is the
  remote end as a function of the content sent.
\<close>

datatype reply = HttpFailure | Unparsable | Parsed translated

text \<open>
  \<^verbatim>\<open>IncrementalTranslationProcessor.callAnthropicAPI\<close> (and
  \<^verbatim>\<open>callClaudeOAuth\<close>, which treats the answer the same way) returns what
  \<^verbatim>\<open>JSON.parse\<close> returns.
\<close>

definition callAnthropicAPI :: "reply \<Rightarrow> error + translated" where
  "callAnthropicAPI r =
     (case r of
        HttpFailure \<Rightarrow> Inl ApiError
      | Unparsable \<Rightarrow> Inl JsonParseError
      | Parsed t \<Rightarrow> Inr t)"

definition callClaude :: "(files \<Rightarrow> reply) \<Rightarrow> files \<Rightarrow> error + translated" where
  "callClaude service content = callAnthropicAPI (service content)"

text \<open>
  The other class of the same file, \<^verbatim>\<open>IntelligentTranslationProcessorClaude\<close>,
  checks the parsed answer before it returns it:
  \<^verbatim>\<open>for (const lang of expectedLanguages) if (!parsed[lang]) throw new Error(...)\<close>.
\<close>

fun missingLanguage :: "string list \<Rightarrow> translated \<Rightarrow> string option" where
  "missingLanguage [] parsed = None"
| "missingLanguage (lang # rest) parsed =
     (if map_of parsed lang = None then Some lang else missingLanguage rest parsed)"

definition callAnthropicAPIChecked :: "string list \<Rightarrow> reply \<Rightarrow> error + translated" where
  "callAnthropicAPIChecked targetLanguages r =
     (case r of
        HttpFailure \<Rightarrow> Inl ApiError
      | Unparsable \<Rightarrow> Inl JsonParseError
      | Parsed t \<Rightarrow>
          (case missingLanguage targetLanguages t of
             Some lang \<Rightarrow> Inl (MissingLanguage lang)
           | None \<Rightarrow> Inr t))"

text \<open>
  \<^verbatim>\<open>loadExistingTranslations\<close> on the translated trees found on disk: every
  target language gets an entry, and a document with zero keys is not loaded.
\<close>

definition loadExistingTranslations :: "string list \<Rightarrow> translated \<Rightarrow> translated" where
  "loadExistingTranslations targetLanguages disk =
     fold (\<lambda>language existing.
             AList.update language
               (filter (\<lambda>(fileName, doc). doc \<noteq> [])
                  (case map_of disk language of None \<Rightarrow> [] | Some fs \<Rightarrow> fs))
               existing)
       targetLanguages []"

text \<open>
  \<^verbatim>\<open>saveTranslations\<close>: the files written, in order, as
  \<open>(language, fileName, content)\<close>; a language outside the target languages is
  skipped.
\<close>

definition saveTranslations :: "string list \<Rightarrow> translated \<Rightarrow> (string \<times> string \<times> obj) list" where
  "saveTranslations targetLanguages t =
     concat (map (\<lambda>(language, fs).
                    if language \<in> set targetLanguages
                    then map (\<lambda>(fileName, content). (language, fileName, content)) fs
                    else [])
               t)"

text \<open>
  \<^verbatim>\<open>translateIncremental\<close> from the detection on: an error ends the run
  (\<^verbatim>\<open>process.exit(1)\<close>) before anything is written; otherwise the result is the
  list of translated files written.
\<close>

definition translateIncremental ::
  "string list \<Rightarrow> nat \<Rightarrow> files \<Rightarrow> files \<Rightarrow> translated \<Rightarrow> (files \<Rightarrow> reply)
     \<Rightarrow> error + (string \<times> string \<times> obj) list" where
  "translateIncremental targetLanguages fresh previousFiles currentFiles existingTranslations service =
     (let c = detectChanges previousFiles currentFiles
      in if hasChanges c
         then (case translateChanges c currentFiles (callClaude service) of
                 Inl e \<Rightarrow> Inl e
               | Inr newTranslations \<Rightarrow>
                   Inr (saveTranslations targetLanguages
                          (mergeTranslations targetLanguages fresh existingTranslations
                             newTranslations c)))
         else Inr [])"

text \<open>The value of \<^verbatim>\<open>this.targetLanguages\<close> set by the constructor.\<close>

definition targetLanguages :: "string list" where
  "targetLanguages =
     [''de'', ''es'', ''fr'', ''fr-ca'', ''ja'', ''ko'', ''nl'', ''pt'', ''zh-cn'', ''zh-hk'', ''it'']"

section \<open>Notions used by the properties\<close>


text \<open>Structural identity of documents, of the documents of a language and of
  translated trees: equality of shapes.\<close>

definition shapeFiles :: "files \<Rightarrow> files" where
  "shapeFiles fs = map (\<lambda>(fileName, doc). (fileName, shapeObj doc)) fs"

definition shapeTranslated :: "translated \<Rightarrow> translated" where
  "shapeTranslated t = map (\<lambda>(language, fs). (language, shapeFiles fs)) t"

text \<open>\<^verbatim>\<open>t[language][fileName]\<close>, when both exist.\<close>

definition lookupDoc :: "translated \<Rightarrow> string \<Rightarrow> string \<Rightarrow> obj option" where
  "lookupDoc t language fileName =
     (case map_of t language of None \<Rightarrow> None | Some fs \<Rightarrow> map_of fs fileName)"







definition joinPath :: "string \<Rightarrow> string list \<Rightarrow> string" where
  "joinPath prefix ks = foldl joinKey prefix ks"

definition flatOf :: "string \<Rightarrow> (string list \<times> json) list \<Rightarrow> obj" where
  "flatOf prefix ls = map (apfst (joinPath prefix)) ls"




section \<open>The store model of \<^verbatim>\<open>mergeTranslations\<close>\<close>

text \<open>
  Whether \<^verbatim>\<open>mergeTranslations\<close> changes an object of its caller depends on
  which objects are shared, so this section runs the same code on a store. An
  object or an array is a cell of the store, a value is a primitive or the
  address of a cell, \<^verbatim>\<open>{}\<close> and \<^verbatim>\<open>{ ...x }\<close> allocate the next address, and
  an assignment to a property replaces the cell at the address assigned through.
  The change sets are only read and stay as they are.
\<close>

type_synonym addr = nat

datatype val = VNull | VBool bool | VNum rat | VStr string | VRef addr

datatype cell = ObjCell "(string \<times> val) list" | ArrCell "val list"

type_synonym store = "cell list"

text \<open>An address outside the store is no object of the program; read as the
  empty object, never written.\<close>

definition cellAt :: "store \<Rightarrow> addr \<Rightarrow> cell" where
  "cellAt s a = (if a < length s then s ! a else ObjCell [])"

definition alloc :: "cell \<Rightarrow> store \<Rightarrow> val \<times> store" where
  "alloc c s = (VRef (length s), s @ [c])"

fun truthyV :: "val \<Rightarrow> bool" where
  "truthyV VNull = False"
| "truthyV (VBool b) = b"
| "truthyV (VNum n) = (n \<noteq> 0)"
| "truthyV (VStr s) = (s \<noteq> [])"
| "truthyV (VRef a) = True"

text \<open>\<^verbatim>\<open>typeof v === 'object' && v !== null\<close>, and the same with
  \<^verbatim>\<open>&& !Array.isArray(v)\<close>.\<close>

fun isObjectOrArray :: "val \<Rightarrow> bool" where
  "isObjectOrArray (VRef a) = True"
| "isObjectOrArray v = False"

fun isPlainObject :: "store \<Rightarrow> val \<Rightarrow> bool" where
  "isPlainObject s (VRef a) = (case cellAt s a of ObjCell es \<Rightarrow> True | ArrCell xs \<Rightarrow> False)"
| "isPlainObject s v = False"

text \<open>\<^verbatim>\<open>v[k]\<close> for a value that is not null, \<open>None\<close> for \<^verbatim>\<open>undefined\<close>;
  and \<^verbatim>\<open>v[k]\<close> for any value: reading a property of null raises.\<close>

fun getOwn :: "store \<Rightarrow> val \<Rightarrow> string \<Rightarrow> val option" where
  "getOwn s (VRef a) k = (case cellAt s a of ObjCell es \<Rightarrow> map_of es k | ArrCell xs \<Rightarrow> None)"
| "getOwn s v k = None"

fun getProp :: "store \<Rightarrow> val \<Rightarrow> string \<Rightarrow> error + val option" where
  "getProp s VNull k = Inl TypeError"
| "getProp s v k = Inr (getOwn s v k)"

text \<open>\<^verbatim>\<open>v[k] = x\<close> and \<^verbatim>\<open>delete v[k]\<close>.\<close>

fun setProp :: "store \<Rightarrow> val \<Rightarrow> string \<Rightarrow> val \<Rightarrow> error + store" where
  "setProp s (VRef a) k x =
     (case cellAt s a of
        ObjCell es \<Rightarrow> Inr (s[a := ObjCell (AList.update k x es)])
      | ArrCell xs \<Rightarrow> Inl ArrayProperty)"
| "setProp s v k x = Inl TypeError"

fun deleteProp :: "store \<Rightarrow> val \<Rightarrow> string \<Rightarrow> store" where
  "deleteProp s (VRef a) k =
     (case cellAt s a of
        ObjCell es \<Rightarrow> s[a := ObjCell (AList.delete k es)]
      | ArrCell xs \<Rightarrow> s)"
| "deleteProp s v k = s"

text \<open>The own enumerable properties that \<^verbatim>\<open>{ ...v }\<close> copies and
  \<^verbatim>\<open>Object.entries(v)\<close> lists: of an array its elements under their indices,
  of a string its characters, of the other primitives none.
  \<^verbatim>\<open>Object.entries(null)\<close> raises.\<close>

definition indexed :: "'a list \<Rightarrow> (string \<times> 'a) list" where
  "indexed xs = zip (map showIndex [0..<length xs]) xs"

fun spreadH :: "store \<Rightarrow> val \<Rightarrow> (string \<times> val) list" where
  "spreadH s (VRef a) = (case cellAt s a of ObjCell es \<Rightarrow> es | ArrCell xs \<Rightarrow> indexed xs)"
| "spreadH s (VStr str) = indexed (map (\<lambda>c. VStr [c]) str)"
| "spreadH s v = []"

fun entriesH :: "store \<Rightarrow> val \<Rightarrow> error + (string \<times> val) list" where
  "entriesH s VNull = Inl TypeError"
| "entriesH s v = Inr (spreadH s v)"

text \<open>
  \<^verbatim>\<open>JSON.stringify\<close> reads the tree below a value. \<open>stack\<close> holds the addresses
  being serialised: meeting one of them again is a circular structure
  (\<^verbatim>\<open>TypeError\<close>). \<open>depth\<close> is the call stack left. The tree carries no
  identity (the arrays get 0).
\<close>

fun toTree :: "nat \<Rightarrow> addr list \<Rightarrow> store \<Rightarrow> val \<Rightarrow> error + json"
  and toTreeList :: "nat \<Rightarrow> addr list \<Rightarrow> store \<Rightarrow> val list \<Rightarrow> error + json list"
  and toTreeEntries ::
    "nat \<Rightarrow> addr list \<Rightarrow> store \<Rightarrow> (string \<times> val) list \<Rightarrow> error + (string \<times> json) list" where
  "toTree depth stack s VNull = Inr JNull"
| "toTree depth stack s (VBool b) = Inr (JBool b)"
| "toTree depth stack s (VNum n) = Inr (JNum n)"
| "toTree depth stack s (VStr str) = Inr (JStr str)"
| "toTree 0 stack s (VRef a) = Inl RangeError"
| "toTree (Suc depth) stack s (VRef a) =
     (if a \<in> set stack then Inl TypeError
      else (case cellAt s a of
              ObjCell es \<Rightarrow>
                (case toTreeEntries depth (a # stack) s es of
                   Inl e \<Rightarrow> Inl e
                 | Inr js \<Rightarrow> Inr (JObj js))
            | ArrCell xs \<Rightarrow>
                (case toTreeList depth (a # stack) s xs of
                   Inl e \<Rightarrow> Inl e
                 | Inr js \<Rightarrow> Inr (JArr 0 js))))"
| "toTreeList depth stack s [] = Inr []"
| "toTreeList depth stack s (x # xs) =
     (case toTree depth stack s x of
        Inl e \<Rightarrow> Inl e
      | Inr j \<Rightarrow>
          (case toTreeList depth stack s xs of
             Inl e \<Rightarrow> Inl e
           | Inr js \<Rightarrow> Inr (j # js)))"
| "toTreeEntries depth stack s [] = Inr []"
| "toTreeEntries depth stack s ((k, x) # es) =
     (case toTree depth stack s x of
        Inl e \<Rightarrow> Inl e
      | Inr j \<Rightarrow>
          (case toTreeEntries depth stack s es of
             Inl e \<Rightarrow> Inl e
           | Inr js \<Rightarrow> Inr ((k, j) # js)))"

text \<open>\<^verbatim>\<open>JSON.parse\<close> builds the tree from new cells.\<close>

fun fromTree :: "json \<Rightarrow> store \<Rightarrow> val \<times> store"
  and fromTreeList :: "json list \<Rightarrow> store \<Rightarrow> val list \<times> store"
  and fromTreeEntries :: "obj \<Rightarrow> store \<Rightarrow> (string \<times> val) list \<times> store" where
  "fromTree JNull s = (VNull, s)"
| "fromTree (JBool b) s = (VBool b, s)"
| "fromTree (JNum n) s = (VNum n, s)"
| "fromTree (JStr str) s = (VStr str, s)"
| "fromTree (JArr i xs) s = (case fromTreeList xs s of (vs, s1) \<Rightarrow> alloc (ArrCell vs) s1)"
| "fromTree (JObj es) s = (case fromTreeEntries es s of (fs, s1) \<Rightarrow> alloc (ObjCell fs) s1)"
| "fromTreeList [] s = ([], s)"
| "fromTreeList (x # xs) s =
     (case fromTree x s of (v, s1) \<Rightarrow>
        (case fromTreeList xs s1 of (vs, s2) \<Rightarrow> (v # vs, s2)))"
| "fromTreeEntries [] s = ([], s)"
| "fromTreeEntries ((k, x) # es) s =
     (case fromTree x s of (v, s1) \<Rightarrow>
        (case fromTreeEntries es s1 of (fs, s2) \<Rightarrow> ((k, v) # fs, s2)))"

text \<open>
  Every function below returns the store it leaves behind together with its
  result or the error raised, so that the store is known when a merge fails,
  too.
\<close>

definition jsonCloneH :: "nat \<Rightarrow> val \<Rightarrow> store \<Rightarrow> store \<times> (error + val)" where
  "jsonCloneH depth v s =
     (case toTree depth [] s v of
        Inl e \<Rightarrow> (s, Inl e)
      | Inr j \<Rightarrow> (case fromTree j s of (v', s') \<Rightarrow> (s', Inr v')))"

text \<open>
  \<^verbatim>\<open>deepMerge(target, source)\<close> and its loop over the entries of \<open>source\<close>,
  writing to the new object \<open>result\<close>.
\<close>

fun deepMergeH :: "nat \<Rightarrow> val \<Rightarrow> val \<Rightarrow> store \<Rightarrow> store \<times> (error + val)"
  and deepMergeLoopH ::
    "nat \<Rightarrow> val \<Rightarrow> (string \<times> val) list \<Rightarrow> store \<Rightarrow> store \<times> (error + unit)" where
  "deepMergeH 0 target source s = (s, Inl RangeError)"
| "deepMergeH (Suc depth) target source s =
     (case alloc (ObjCell (spreadH s target)) s of
        (result, s1) \<Rightarrow>
          (case entriesH s1 source of
             Inl e \<Rightarrow> (s1, Inl e)
           | Inr es \<Rightarrow>
               (case deepMergeLoopH depth result es s1 of
                  (s2, Inl e) \<Rightarrow> (s2, Inl e)
                | (s2, Inr u) \<Rightarrow> (s2, Inr result))))"
| "deepMergeLoopH depth result [] s = (s, Inr ())"
| "deepMergeLoopH depth result ((key, value) # rest) s =
     (case (if isPlainObject s value
            then (case getOwn s result key of
                    Some old \<Rightarrow>
                      if isObjectOrArray old then deepMergeH depth old value s
                      else (s, Inr value)
                  | None \<Rightarrow> (s, Inr value))
            else (s, Inr value)) of
        (s1, Inl e) \<Rightarrow> (s1, Inl e)
      | (s1, Inr x) \<Rightarrow>
          (case setProp s1 result key x of
             Inl e \<Rightarrow> (s1, Inl e)
           | Inr s2 \<Rightarrow> deepMergeLoopH depth result rest s2))"

text \<open>\<^verbatim>\<open>deleteNestedKey\<close> on the keys still to go, from the truthy value
  \<open>cur\<close>.\<close>

fun deletePathH :: "val \<Rightarrow> string list \<Rightarrow> store \<Rightarrow> store" where
  "deletePathH cur [] s = s"
| "deletePathH cur [k] s = deleteProp s cur k"
| "deletePathH cur (k # ks) s =
     (case getOwn s cur k of
        None \<Rightarrow> s
      | Some child \<Rightarrow> if truthyV child then deletePathH child ks s else s)"

definition deleteNestedKeyH :: "val \<Rightarrow> string \<Rightarrow> store \<Rightarrow> store" where
  "deleteNestedKeyH obj key s = deletePathH obj (splitDot key) s"

text \<open>The loops of \<^verbatim>\<open>mergeTranslations\<close> for one language: the entries of
  \<^verbatim>\<open>newTranslations[language]\<close>, then the modified files, with the loop over
  the deleted keys of one file (which evaluates
  \<^verbatim>\<open>mergedTranslations[language][fileName]\<close> for every key).\<close>

fun mergeNewFilesH ::
  "nat \<Rightarrow> val \<Rightarrow> string \<Rightarrow> (string \<times> val) list \<Rightarrow> store \<Rightarrow> store \<times> (error + unit)" where
  "mergeNewFilesH depth merged language [] s = (s, Inr ())"
| "mergeNewFilesH depth merged language ((fileName, newContent) # rest) s =
     (case getOwn s merged language of
        None \<Rightarrow> (s, Inl TypeError)
      | Some ml \<Rightarrow>
          (case (case getProp s ml fileName of
                   Inl e \<Rightarrow> (s, Inl e)
                 | Inr None \<Rightarrow> (s, Inr newContent)
                 | Inr (Some old) \<Rightarrow>
                     if truthyV old then deepMergeH depth old newContent s
                     else (s, Inr newContent)) of
             (s1, Inl e) \<Rightarrow> (s1, Inl e)
           | (s1, Inr x) \<Rightarrow>
               (case setProp s1 ml fileName x of
                  Inl e \<Rightarrow> (s1, Inl e)
                | Inr s2 \<Rightarrow> mergeNewFilesH depth merged language rest s2)))"

fun deleteKeysH ::
  "val \<Rightarrow> string \<Rightarrow> string \<Rightarrow> string list \<Rightarrow> store \<Rightarrow> store \<times> (error + unit)" where
  "deleteKeysH merged language fileName [] s = (s, Inr ())"
| "deleteKeysH merged language fileName (deletedKey # rest) s =
     (case getOwn s merged language of
        None \<Rightarrow> (s, Inl TypeError)
      | Some ml \<Rightarrow>
          (case getProp s ml fileName of
             Inl e \<Rightarrow> (s, Inl e)
           | Inr None \<Rightarrow> (s, Inl TypeError)
           | Inr (Some VNull) \<Rightarrow> (s, Inl TypeError)
           | Inr (Some doc) \<Rightarrow>
               deleteKeysH merged language fileName rest (deleteNestedKeyH doc deletedKey s)))"

fun applyDeletionsH ::
  "changes \<Rightarrow> val \<Rightarrow> string \<Rightarrow> string list \<Rightarrow> store \<Rightarrow> store \<times> (error + unit)" where
  "applyDeletionsH c merged language [] s = (s, Inr ())"
| "applyDeletionsH c merged language (fileName # rest) s =
     (case map_of (deletedKeys c) fileName of
        None \<Rightarrow> applyDeletionsH c merged language rest s
      | Some dks \<Rightarrow>
          (case getOwn s merged language of
             None \<Rightarrow> (s, Inl TypeError)
           | Some ml \<Rightarrow>
               (case getProp s ml fileName of
                  Inl e \<Rightarrow> (s, Inl e)
                | Inr None \<Rightarrow> applyDeletionsH c merged language rest s
                | Inr (Some doc) \<Rightarrow>
                    if truthyV doc
                    then (case deleteKeysH merged language fileName dks s of
                            (s1, Inl e) \<Rightarrow> (s1, Inl e)
                          | (s1, Inr u) \<Rightarrow> applyDeletionsH c merged language rest s1)
                    else applyDeletionsH c merged language rest s)))"

definition mergeLanguageH ::
  "nat \<Rightarrow> val \<Rightarrow> val \<Rightarrow> changes \<Rightarrow> string \<Rightarrow> store \<Rightarrow> store \<times> (error + unit)" where
  "mergeLanguageH depth merged newTranslations c language s =
     (case (case getProp s merged language of
              Inl e \<Rightarrow> Inl e
            | Inr (Some ml) \<Rightarrow>
                if truthyV ml then Inr s
                else (case alloc (ObjCell []) s of (fresh, s1) \<Rightarrow> setProp s1 merged language fresh)
            | Inr None \<Rightarrow>
                (case alloc (ObjCell []) s of (fresh, s1) \<Rightarrow> setProp s1 merged language fresh)) of
        Inl e \<Rightarrow> (s, Inl e)
      | Inr s1 \<Rightarrow>
          (case (case getProp s1 newTranslations language of
                   Inl e \<Rightarrow> (s1, Inl e)
                 | Inr None \<Rightarrow> (s1, Inr ())
                 | Inr (Some nl) \<Rightarrow>
                     if truthyV nl
                     then (case entriesH s1 nl of
                             Inl e \<Rightarrow> (s1, Inl e)
                           | Inr es \<Rightarrow> mergeNewFilesH depth merged language es s1)
                     else (s1, Inr ())) of
             (s2, Inl e) \<Rightarrow> (s2, Inl e)
           | (s2, Inr u) \<Rightarrow> applyDeletionsH c merged language (modifiedFiles c) s2))"

fun mergeLanguagesH ::
  "nat \<Rightarrow> val \<Rightarrow> val \<Rightarrow> changes \<Rightarrow> string list \<Rightarrow> store \<Rightarrow> store \<times> (error + unit)" where
  "mergeLanguagesH depth merged newTranslations c [] s = (s, Inr ())"
| "mergeLanguagesH depth merged newTranslations c (language # rest) s =
     (case mergeLanguageH depth merged newTranslations c language s of
        (s1, Inl e) \<Rightarrow> (s1, Inl e)
      | (s1, Inr u) \<Rightarrow> mergeLanguagesH depth merged newTranslations c rest s1)"

text \<open>
  \<^verbatim>\<open>mergeTranslations(existingTranslations, newTranslations, changes)\<close> on
  the store \<open>s\<close>, with the call stack \<open>depth\<close> and the target languages of the
  processor: the store left behind, and the merged value or the error.
\<close>

definition mergeTranslationsH ::
  "nat \<Rightarrow> string list \<Rightarrow> val \<Rightarrow> val \<Rightarrow> changes \<Rightarrow> store \<Rightarrow> store \<times> (error + val)" where
  "mergeTranslationsH depth langs existingTranslations newTranslations c s =
     (case jsonCloneH depth existingTranslations s of
        (s1, Inl e) \<Rightarrow> (s1, Inl e)
      | (s1, Inr merged) \<Rightarrow>
          (case mergeLanguagesH depth merged newTranslations c langs s1 of
             (s2, Inl e) \<Rightarrow> (s2, Inl e)
           | (s2, Inr u) \<Rightarrow> (s2, Inr merged)))"

text \<open>
  The frame of a run that started in the store \<open>s0\<close>, for a set \<open>R\<close> of
  addresses: a value is \<open>R\<close>-local when it is a primitive, an address of
  \<open>R\<close> or an address allocated since; the store \<open>s\<close> is in the frame when
  every cell of \<open>s0\<close> outside \<open>R\<close> is as it was, and the cells of \<open>R\<close> and
  the cells allocated since hold \<open>R\<close>-local values only.
\<close>

fun valsCell :: "cell \<Rightarrow> val set" where
  "valsCell (ObjCell es) = snd ` set es"
| "valsCell (ArrCell xs) = set xs"

fun localV :: "addr set \<Rightarrow> nat \<Rightarrow> val \<Rightarrow> bool" where
  "localV R n (VRef a) = (a \<in> R \<or> n \<le> a)"
| "localV R n v = True"

definition inFrame :: "addr set \<Rightarrow> store \<Rightarrow> store \<Rightarrow> bool" where
  "inFrame R s0 s =
     (length s0 \<le> length s
      \<and> (\<forall>a < length s0. a \<notin> R \<longrightarrow> s ! a = s0 ! a)
      \<and> (\<forall>a < length s. a \<in> R \<or> length s0 \<le> a \<longrightarrow>
             (\<forall>v \<in> valsCell (s ! a). localV R (length s0) v)))"

section \<open>Flat maps\<close>




lemma set_update_subset: "set (AList.update k v al) \<subseteq> insert (k, v) (set al)"
  by (induction al) auto





section \<open>Dotted paths and leaves\<close>

lemma splitDot_nonempty [simp]: "splitDot s \<noteq> []"
  by (induction s) (auto split: list.splits)




lemma joinKey_nonempty: "k \<noteq> [] \<Longrightarrow> joinKey prefix k \<noteq> []"
  by (simp add: joinKey_def)













lemma flatOf_simps [simp]:
  "flatOf prefix [] = []"
  "flatOf prefix ((p, v) # ls) = (joinPath prefix p, v) # flatOf prefix ls"
  "flatOf prefix (ls @ ls') = flatOf prefix ls @ flatOf prefix ls'"
  by (simp_all add: flatOf_def)


















text \<open>
  The two conditions on keys are needed as well: a key with a dot is split by
  \<^verbatim>\<open>split('.')\<close>, and an empty key at the top is a falsy prefix, so the keys
  below it lose it.
\<close>

lemma roundtrip_splits_dotted_key:
  "unflattenObject (flattenObject [(''a.b'', JNum 1)] [])
   = Inr [(''a'', JObj [(''b'', JNum 1)])]"
  by (simp add: unflattenObject_def flattenObject_def objectAssign_def joinKey_def)

lemma roundtrip_drops_empty_key:
  "unflattenObject (flattenObject [([], JObj [(''x'', JNum 1)])] []) = Inr [(''x'', JNum 1)]"
  by (simp add: unflattenObject_def flattenObject_def objectAssign_def joinKey_def)

section \<open>Change detection\<close>



lemma newOrModified_deleted [simp]:
  "deletedKeysF (newOrModified pf cf c) = deletedKeysF c"
  by (induction cf arbitrary: c) (auto split: option.splits if_splits)



lemma deletedLoop_new [simp]: "newKeysF (deletedLoop cf ks c) = newKeysF c"
  by (induction ks arbitrary: c) auto

lemma deletedLoop_modified [simp]: "modifiedKeysF (deletedLoop cf ks c) = modifiedKeysF c"
  by (induction ks arbitrary: c) auto




section \<open>Delta builder\<close>

lemma addNewFiles_names:
  "fst ` set (addNewFiles cur ns content) \<subseteq> fst ` set content \<union> set ns"
  by (induction cur ns content rule: addNewFiles.induct)
     (auto simp: dom_update split: option.splits)

lemma addModifiedFiles_names:
  "addModifiedFiles c ns content = Inr content' \<Longrightarrow>
   fst ` set content' \<subseteq> fst ` set content \<union> set ns"
proof (induction c ns content arbitrary: content' rule: addModifiedFiles.induct)
  case (1 c content)
  then show ?case by simp
next
  case (2 c fileName rest content)
  from "2.prems" obtain doc1 doc2 where
    d1: "setAll (case map_of content fileName of None \<Rightarrow> [] | Some doc \<Rightarrow> doc)
           (keysOrNone (newKeys c) fileName) = Inr doc1"
    and d2: "setAll doc1 (map (\<lambda>(key, oldValue, newValue). (key, newValue))
           (keysOrNone (modifiedKeys c) fileName)) = Inr doc2"
    and r: "addModifiedFiles c rest (AList.update fileName doc2 content) = Inr content'"
    by (auto simp: Let_def split: sum.splits)
  from "2.IH" [OF refl d1 d2 r] show ?case
    by (auto simp: dom_update)
qed

text \<open>
  C5. The claim says that a document whose change set records only deletions is
  left out of the delta. The code does otherwise: with the previous snapshot
  \<^verbatim>\<open>{"a.json": {"greeting": "Hi", "farewell": "Bye"}}\<close> and the current tree
  \<^verbatim>\<open>{"a.json": {"greeting": "Hi"}}\<close> the only change is the deleted key
  \<^verbatim>\<open>farewell\<close>, the content built is \<^verbatim>\<open>{"a.json": {}}\<close>, the test
  \<^verbatim>\<open>Object.keys(contentToTranslate).length === 0\<close> does not fire, and the
  translation service is called with the empty document.
\<close>

theorem deletion_only_document_is_sent:
  "contentToTranslate
     (detectChanges
        [(''a.json'', [(''greeting'', JStr ''Hi''), (''farewell'', JStr ''Bye'')])]
        [(''a.json'', [(''greeting'', JStr ''Hi'')])])
     [(''a.json'', [(''greeting'', JStr ''Hi'')])]
   = Inr [(''a.json'', [])]
   \<and> translateChanges
     (detectChanges
        [(''a.json'', [(''greeting'', JStr ''Hi''), (''farewell'', JStr ''Bye'')])]
        [(''a.json'', [(''greeting'', JStr ''Hi'')])])
     [(''a.json'', [(''greeting'', JStr ''Hi'')])] send
   = send [(''a.json'', [])]"
  by (simp add: translateChanges_def contentToTranslate_def detectChanges_def
      detectFileChanges_def flattenObject_def noChanges_def noFileChanges_def joinKey_def
      keysOrNone_def)

section \<open>Merger\<close>

subsection \<open>The rule of \<^verbatim>\<open>deepMerge\<close>\<close>

text \<open>
  C3. The claim says that the merge recurses when both values are nested
  mappings and that the new value overwrites in every other case. The code
  recurses as well when the existing value is an array and the new value is a
  nested mapping: the test on \<^verbatim>\<open>result[key]\<close> lacks the
  \<^verbatim>\<open>!Array.isArray\<close> that the test on the new value has. Merging
  \<^verbatim>\<open>{"a": {"b": "y"}}\<close> into \<^verbatim>\<open>{"a": ["x"]}\<close> gives
  \<^verbatim>\<open>{"a": {"0": "x", "b": "y"}}\<close>, and not \<^verbatim>\<open>{"a": {"b": "y"}}\<close>.
\<close>

theorem deepMerge_array_target_not_overwritten:
  "deepMerge (JObj [(''a'', JArr 0 [JStr ''x''])]) [(''a'', JObj [(''b'', JStr ''y'')])]
   = [(''a'', JObj [(''0'', JStr ''x''), (''b'', JStr ''y'')])]
   \<and> deepMerge (JObj [(''a'', JArr 0 [JStr ''x''])]) [(''a'', JObj [(''b'', JStr ''y'')])]
   \<noteq> [(''a'', JObj [(''b'', JStr ''y'')])]"
  by (simp add: deepMerge_def)

subsection \<open>The deep clone\<close>

lemma clone_shape_rel:
  "jsonClone n v = (w, m) \<Longrightarrow> shape w = shape v"
  "cloneList n xs = (ys, m) \<Longrightarrow> map shape ys = map shape xs"
  "cloneEntries n es = (fs, m) \<Longrightarrow> shapeObj fs = shapeObj es"
  by (induction n v and n xs and n es arbitrary: w m and ys m and fs m
      rule: jsonClone_cloneList_cloneEntries.induct)
     (auto simp: shapeObj_def split: prod.splits)

lemma cloneFiles_shape_rel: "cloneFiles n fs = (gs, m) \<Longrightarrow> shapeFiles gs = shapeFiles fs"
  by (induction n fs arbitrary: gs m rule: cloneFiles.induct)
     (auto simp: shapeFiles_def clone_shape_rel(3) split: prod.splits)

lemma cloneTranslations_shape_rel:
  "cloneTranslations n t = (u, m) \<Longrightarrow> shapeTranslated u = shapeTranslated t"
  by (induction n t arbitrary: u m rule: cloneTranslations.induct)
     (auto simp: shapeTranslated_def cloneFiles_shape_rel split: prod.splits)

text \<open>The deep clone is structurally identical to its argument.\<close>

lemma cloneTranslations_shape:
  "shapeTranslated (fst (cloneTranslations n t)) = shapeTranslated t"
  using cloneTranslations_shape_rel [of n t] by (cases "cloneTranslations n t") simp



lemma lookupDoc_shape:
  "lookupDoc (shapeTranslated t) language fileName
   = map_option shapeObj (lookupDoc t language fileName)"
proof -
  have 1: "map_of (shapeTranslated t) language = map_option shapeFiles (map_of t language)"
    by (induction t) (auto simp: shapeTranslated_def)
  have 2: "map_of (shapeFiles fs) fileName = map_option shapeObj (map_of fs fileName)" for fs
    by (induction fs) (auto simp: shapeFiles_def)
  show ?thesis
    by (simp add: lookupDoc_def 1 2 split: option.splits)
qed

lemma lookupDoc_clone:
  "map_option shapeObj (lookupDoc (fst (cloneTranslations n t)) language fileName)
   = map_option shapeObj (lookupDoc t language fileName)"
  using cloneTranslations_shape [of n t] lookupDoc_shape by metis

subsection \<open>Merging an empty answer\<close>






subsection \<open>A document that left the source tree\<close>

lemma newFilesLoop_fields [simp]:
  "modifiedFiles (newFilesLoop p ns c) = modifiedFiles c"
  "newKeys (newFilesLoop p ns c) = newKeys c"
  "modifiedKeys (newFilesLoop p ns c) = modifiedKeys c"
  "deletedKeys (newFilesLoop p ns c) = deletedKeys c"
  by (induction ns arbitrary: c) auto

lemma newFilesLoop_newFiles:
  "set (newFiles (newFilesLoop p ns c)) = set (newFiles c) \<union> {n \<in> set ns. map_of p n = None}"
  by (induction ns arbitrary: c) auto

lemma existingFilesLoop_newFiles [simp]:
  "newFiles (existingFilesLoop p cur c) = newFiles c"
  by (induction p cur c rule: existingFilesLoop.induct) (auto simp: Let_def split: option.splits)

lemma existingFilesLoop_names:
  "set (modifiedFiles (existingFilesLoop p cur c)) \<subseteq> set (modifiedFiles c) \<union> fst ` set cur"
  "fst ` set (newKeys (existingFilesLoop p cur c)) \<subseteq> fst ` set (newKeys c) \<union> fst ` set cur"
  "fst ` set (modifiedKeys (existingFilesLoop p cur c))
     \<subseteq> fst ` set (modifiedKeys c) \<union> fst ` set cur"
  "fst ` set (deletedKeys (existingFilesLoop p cur c))
     \<subseteq> fst ` set (deletedKeys c) \<union> fst ` set cur"
  by (induction p cur c rule: existingFilesLoop.induct)
     (auto simp: Let_def dom_update split: option.splits if_splits)

text \<open>Both loops of \<^verbatim>\<open>detectChanges\<close> ask the snapshot for current names only.\<close>

lemma newFilesLoop_cong:
  "(\<And>n. n \<in> set ns \<Longrightarrow> map_of p n = map_of p' n) \<Longrightarrow>
   newFilesLoop p ns c = newFilesLoop p' ns c"
  by (induction ns arbitrary: c) auto

lemma existingFilesLoop_cong:
  "(\<And>n. n \<in> fst ` set cur \<Longrightarrow> map_of p n = map_of p' n) \<Longrightarrow>
   existingFilesLoop p cur c = existingFilesLoop p' cur c"
proof (induction cur arbitrary: c)
  case Nil
  then show ?case by simp
next
  case (Cons e cur)
  obtain n d where e: "e = (n, d)" by (cases e)
  have 1: "map_of p n = map_of p' n" using Cons.prems [of n] by (simp add: e)
  have 2: "existingFilesLoop p cur c' = existingFilesLoop p' cur c'" for c'
    by (rule Cons.IH) (use Cons.prems in auto)
  show ?case by (simp add: e 1 2)
qed

lemma detectChanges_absent_document:
  assumes "fileName \<notin> fst ` set currentFiles"
  shows "detectChanges (AList.delete fileName previousFiles) currentFiles
         = detectChanges previousFiles currentFiles"
proof -
  have eq: "map_of (AList.delete fileName previousFiles) n = map_of previousFiles n"
    if "n \<in> fst ` set currentFiles" for n
    using that assms by (intro map_of_delete) auto
  show ?thesis
    unfolding detectChanges_def
    using newFilesLoop_cong
        [of "map fst currentFiles" "AList.delete fileName previousFiles" previousFiles]
      existingFilesLoop_cong
        [of currentFiles "AList.delete fileName previousFiles" previousFiles]
      eq by simp
qed

lemma detectChanges_names:
  assumes "fileName \<notin> fst ` set currentFiles"
  shows "fileName \<notin> set (newFiles (detectChanges previousFiles currentFiles))"
    "fileName \<notin> set (modifiedFiles (detectChanges previousFiles currentFiles))"
    "map_of (newKeys (detectChanges previousFiles currentFiles)) fileName = None"
    "map_of (modifiedKeys (detectChanges previousFiles currentFiles)) fileName = None"
    "map_of (deletedKeys (detectChanges previousFiles currentFiles)) fileName = None"
  using assms
    existingFilesLoop_names [of previousFiles currentFiles
      "newFilesLoop previousFiles (map fst currentFiles) noChanges"]
  unfolding detectChanges_def
  by (auto simp: newFilesLoop_newFiles noChanges_def map_of_eq_None_iff)

lemma mergeNewFiles_other:
  "fileName \<notin> fst ` set newFs \<Longrightarrow>
   map_of (mergeNewFiles newFs merged) fileName = map_of merged fileName"
  by (induction newFs merged rule: mergeNewFiles.induct)
     (auto simp: update_conv' split: option.splits)

lemma applyDeletions_other:
  "fileName \<notin> set fs \<Longrightarrow>
   map_of (applyDeletions c fs merged) fileName = map_of merged fileName"
  by (induction c fs merged rule: applyDeletions.induct)
     (auto simp: update_conv' split: option.splits)

lemma mergeLanguage_other:
  assumes "fileName \<notin> set (modifiedFiles c)"
    and "lookupDoc newTranslations language fileName = None"
  shows "map_of (mergeLanguage newTranslations c merged language) fileName
         = map_of merged fileName"
proof (cases "map_of newTranslations language")
  case None
  then show ?thesis by (simp add: mergeLanguage_def applyDeletions_other assms(1))
next
  case (Some newFs)
  with assms(2) have "fileName \<notin> fst ` set newFs"
    by (simp add: lookupDoc_def map_of_eq_None_iff)
  then show ?thesis
    by (simp add: mergeLanguage_def Some applyDeletions_other assms(1) mergeNewFiles_other)
qed

lemma mergeLanguages_other:
  assumes "fileName \<notin> set (modifiedFiles c)"
    and "lookupDoc newTranslations language fileName = None"
  shows "lookupDoc (mergeLanguages langs newTranslations c merged) language fileName
         = lookupDoc merged language fileName"
proof (induction langs arbitrary: merged)
  case Nil
  then show ?case by simp
next
  case (Cons l langs)
  let ?m = "AList.update l (mergeLanguage newTranslations c
              (case map_of merged l of None \<Rightarrow> [] | Some fs \<Rightarrow> fs) l) merged"
  have "lookupDoc ?m language fileName = lookupDoc merged language fileName"
  proof (cases "l = language")
    case True
    then show ?thesis
      using mergeLanguage_other [OF assms]
      by (simp add: lookupDoc_def update_conv' split: option.splits)
  next
    case False
    then show ?thesis by (simp add: lookupDoc_def update_conv')
  qed
  then show ?case using Cons.IH [of ?m] by simp
qed

text \<open>
  C10. A document name of the previous snapshot that the current tree lacks
  appears nowhere in the change sets: not among the new or the modified files,
  and with no new, modified or deleted keys. The change sets, \<open>hasChanges\<close>
  included, are those of the snapshot without that document, so the document
  does not set \<open>hasChanges\<close>. The delta does not contain it; and for every
  language for which the answer has no document of that name, the merged tree
  holds under that name a structurally identical copy of what the existing tree
  held: nothing of it is deleted.
\<close>

theorem removed_document_left_in_place:
  assumes "fileName \<in> fst ` set previousFiles"
    and "fileName \<notin> fst ` set currentFiles"
  shows "let c = detectChanges previousFiles currentFiles in
     fileName \<notin> set (newFiles c) \<and> fileName \<notin> set (modifiedFiles c)
     \<and> map_of (newKeys c) fileName = None
     \<and> map_of (modifiedKeys c) fileName = None
     \<and> map_of (deletedKeys c) fileName = None
     \<and> c = detectChanges (AList.delete fileName previousFiles) currentFiles
     \<and> (\<forall>content. contentToTranslate c currentFiles = Inr content \<longrightarrow>
            fileName \<notin> fst ` set content)
     \<and> (\<forall>langs fresh existingTranslations newTranslations language.
           lookupDoc newTranslations language fileName = None \<longrightarrow>
           map_option shapeObj
             (lookupDoc (mergeTranslations langs fresh existingTranslations newTranslations c)
                language fileName)
           = map_option shapeObj (lookupDoc existingTranslations language fileName))"
proof -
  let ?c = "detectChanges previousFiles currentFiles"
  note n = detectChanges_names [OF assms(2), of previousFiles]
  have delta: "fileName \<notin> fst ` set content"
    if "contentToTranslate ?c currentFiles = Inr content" for content
    using addModifiedFiles_names [OF that [unfolded contentToTranslate_def]]
      addNewFiles_names [of currentFiles "newFiles ?c" "[]"] n(1,2) by auto
  have merge: "map_option shapeObj
             (lookupDoc (mergeTranslations langs fresh existingTranslations newTranslations ?c)
                language fileName)
           = map_option shapeObj (lookupDoc existingTranslations language fileName)"
    if "lookupDoc newTranslations language fileName = None"
    for langs fresh existingTranslations newTranslations language
    unfolding mergeTranslations_def
    by (simp add: mergeLanguages_other [OF n(2) that] lookupDoc_clone)
  show ?thesis
    unfolding Let_def
    using n delta merge detectChanges_absent_document [OF assms(2), of previousFiles]
    by simp
qed

text \<open>
  The instance: \<^verbatim>\<open>old.json\<close> has left the source tree while \<^verbatim>\<open>a.json\<close>
  changed; the Spanish \<^verbatim>\<open>old.json\<close> is still there after the merge.
\<close>

theorem removed_document_left_in_place_witness:
  "''old.json'' \<in> fst ` set [(''a.json'', [(''greeting'', JStr ''Hi'')]),
                                (''old.json'', [(''title'', JStr ''Old'')])]
   \<and> ''old.json'' \<notin> fst ` set [(''a.json'', [(''greeting'', JStr ''Hello'')])]
   \<and> lookupDoc
        (mergeTranslations [''es''] 0
           [(''es'', [(''a.json'', [(''greeting'', JStr ''Hola'')]),
                      (''old.json'', [(''title'', JStr ''Viejo'')])])]
           [(''es'', [(''a.json'', [(''greeting'', JStr ''Buenas'')])])]
           (detectChanges
              [(''a.json'', [(''greeting'', JStr ''Hi'')]),
               (''old.json'', [(''title'', JStr ''Old'')])]
              [(''a.json'', [(''greeting'', JStr ''Hello'')])]))
        ''es'' ''old.json''
      = Some [(''title'', JStr ''Viejo'')]"
proof -
  let ?prev = "[(''a.json'', [(''greeting'', JStr ''Hi'')]),
                (''old.json'', [(''title'', JStr ''Old'')])]"
  let ?cur = "[(''a.json'', [(''greeting'', JStr ''Hello'')])]"
  let ?ex = "[(''es'', [(''a.json'', [(''greeting'', JStr ''Hola'')]),
                        (''old.json'', [(''title'', JStr ''Viejo'')])])]"
  let ?new = "[(''es'', [(''a.json'', [(''greeting'', JStr ''Buenas'')])])]"
  have 1: "''old.json'' \<in> fst ` set ?prev" by simp
  have 2: "''old.json'' \<notin> fst ` set ?cur" by simp
  have 3: "lookupDoc ?new ''es'' ''old.json'' = None" by (simp add: lookupDoc_def)
  from removed_document_left_in_place [OF 1 2]
  have "\<forall>langs fresh existingTranslations newTranslations language.
           lookupDoc newTranslations language ''old.json'' = None \<longrightarrow>
           map_option shapeObj
             (lookupDoc (mergeTranslations langs fresh existingTranslations newTranslations
                  (detectChanges ?prev ?cur)) language ''old.json'')
           = map_option shapeObj (lookupDoc existingTranslations language ''old.json'')"
    unfolding Let_def by blast
  with 3 have "map_option shapeObj
      (lookupDoc (mergeTranslations [''es''] 0 ?ex ?new (detectChanges ?prev ?cur))
         ''es'' ''old.json'')
      = map_option shapeObj (lookupDoc ?ex ''es'' ''old.json'')"
    by blast
  then have "map_option shapeObj
      (lookupDoc (mergeTranslations [''es''] 0 ?ex ?new (detectChanges ?prev ?cur))
         ''es'' ''old.json'')
      = Some [(''title'', JStr ''Viejo'')]"
    by (simp add: lookupDoc_def shapeObj_def)
  then obtain d where d: "lookupDoc (mergeTranslations [''es''] 0 ?ex ?new
         (detectChanges ?prev ?cur)) ''es'' ''old.json'' = Some d"
    and s: "shapeObj d = [(''title'', JStr ''Viejo'')]"
    by auto
  from s have "d = [(''title'', JStr ''Viejo'')]"
    by (auto simp: shapeObj_def elim!: shape.elims)
  with d 1 2 show ?thesis by simp
qed

subsection \<open>Deleted keys\<close>

lemma map_of_delete_same [simp]: "map_of (AList.delete k al) k = None"
  by (simp add: map_of_eq_None_iff delete_notin_dom)
















section \<open>A language missing from the answer\<close>

text \<open>
  C1. The claim says that a run in which the answer of the translation service
  lacks a requested language fails with an error naming that language, before
  any merge or write. \<^verbatim>\<open>IncrementalTranslationProcessor\<close> has no such check:
  on the first run over \<^verbatim>\<open>{"a.json": {"greeting": "Hi"}}\<close>, with an answer
  that has every target language but \<^verbatim>\<open>fr\<close>, the run ends without an error
  and writes \<^verbatim>\<open>a.json\<close> for the ten languages of the answer. The other class
  of the file rejects the same answer, naming \<^verbatim>\<open>fr\<close>.
\<close>

theorem missing_language_not_rejected:
  "translateIncremental targetLanguages 0 []
     [(''a.json'', [(''greeting'', JStr ''Hi'')])]
     (loadExistingTranslations targetLanguages [])
     (\<lambda>content.
        Parsed (map (\<lambda>language. (language, [(''a.json'', [(''greeting'', JStr language)])]))
                  (removeAll ''fr'' targetLanguages)))
   = Inr (map (\<lambda>language. (language, ''a.json'', [(''greeting'', JStr language)]))
            (removeAll ''fr'' targetLanguages))
   \<and> callAnthropicAPIChecked targetLanguages
       (Parsed (map (\<lambda>language. (language, [(''a.json'', [(''greeting'', JStr language)])]))
                  (removeAll ''fr'' targetLanguages)))
     = Inl (MissingLanguage ''fr'')"
  by (simp add: translateIncremental_def translateChanges_def contentToTranslate_def
      detectChanges_def noChanges_def callClaude_def callAnthropicAPI_def
      callAnthropicAPIChecked_def mergeTranslations_def mergeLanguage_def
      saveTranslations_def loadExistingTranslations_def targetLanguages_def)

section \<open>The merge in a store of shared objects\<close>

subsection \<open>Writes and allocations stay in the frame\<close>

text \<open>
  \<open>inFrame R s0 s\<close> relates a store \<open>s\<close> to the store \<open>s0\<close> at the call: every
  cell of \<open>s0\<close> outside \<open>R\<close> is as it was, and the cells of \<open>R\<close> and the cells
  allocated since refer only to cells of \<open>R\<close> and to cells allocated since. Each
  operation of the merge keeps the relation, on every branch, those that raise
  included.
\<close>

lemma cellAt_in: "a < length s \<Longrightarrow> cellAt s a = s ! a"
  by (simp add: cellAt_def)

lemma cellAt_out: "\<not> a < length s \<Longrightarrow> cellAt s a = ObjCell []"
  by (simp add: cellAt_def)

lemma inFrameI:
  assumes "length s0 \<le> length s"
    and "\<And>a. a < length s0 \<Longrightarrow> a \<notin> R \<Longrightarrow> s ! a = s0 ! a"
    and "\<And>a v. a < length s \<Longrightarrow> a \<in> R \<or> length s0 \<le> a \<Longrightarrow> v \<in> valsCell (s ! a) \<Longrightarrow>
           localV R (length s0) v"
  shows "inFrame R s0 s"
  unfolding inFrame_def using assms by blast

lemma inFrame_len: "inFrame R s0 s \<Longrightarrow> length s0 \<le> length s"
  by (simp add: inFrame_def)

lemma inFrame_old: "inFrame R s0 s \<Longrightarrow> a < length s0 \<Longrightarrow> a \<notin> R \<Longrightarrow> s ! a = s0 ! a"
  by (simp add: inFrame_def)

lemma inFrame_vals:
  "inFrame R s0 s \<Longrightarrow> a < length s \<Longrightarrow> a \<in> R \<or> length s0 \<le> a \<Longrightarrow>
   v \<in> valsCell (s ! a) \<Longrightarrow> localV R (length s0) v"
  unfolding inFrame_def by blast

lemma inFrame_alloc:
  assumes "inFrame R s0 s" "\<And>v. v \<in> valsCell c \<Longrightarrow> localV R (length s0) v"
    and "alloc c s = (r, s')"
  shows "inFrame R s0 s'" "localV R (length s0) r"
proof -
  from assms(3) have r: "r = VRef (length s)" and s': "s' = s @ [c]"
    by (auto simp: alloc_def)
  note len = inFrame_len [OF assms(1)]
  show "localV R (length s0) r" using len by (simp add: r)
  show "inFrame R s0 s'"
  proof (rule inFrameI)
    show "length s0 \<le> length s'" using len by (simp add: s')
  next
    fix a assume "a < length s0" "a \<notin> R"
    then show "s' ! a = s0 ! a"
      using inFrame_old [OF assms(1)] len by (simp add: s' nth_append)
  next
    fix a v assume a: "a < length s'" "a \<in> R \<or> length s0 \<le> a" and v: "v \<in> valsCell (s' ! a)"
    show "localV R (length s0) v"
    proof (cases "a < length s")
      case True
      then show ?thesis using inFrame_vals [OF assms(1) True a(2)] v by (simp add: s' nth_append)
    next
      case False
      then have "s' ! a = c" using a(1) by (simp add: s' nth_append)
      then show ?thesis using v assms(2) by simp
    qed
  qed
qed

lemma inFrame_write:
  assumes "inFrame R s0 s" "a \<in> R \<or> length s0 \<le> a"
    and "\<And>v. v \<in> valsCell c \<Longrightarrow> localV R (length s0) v"
  shows "inFrame R s0 (s[a := c])"
proof (rule inFrameI)
  show "length s0 \<le> length (s[a := c])" using inFrame_len [OF assms(1)] by simp
next
  fix b assume b: "b < length s0" "b \<notin> R"
  then have "a \<noteq> b" using assms(2) by auto
  then show "s[a := c] ! b = s0 ! b" using inFrame_old [OF assms(1) b] by simp
next
  fix b v assume b: "b < length (s[a := c])" "b \<in> R \<or> length s0 \<le> b"
    and v: "v \<in> valsCell (s[a := c] ! b)"
  show "localV R (length s0) v"
  proof (cases "a = b")
    case True
    then show ?thesis using b(1) v assms(3) by simp
  next
    case False
    then show ?thesis using inFrame_vals [OF assms(1) _ b(2), of v] b(1) v by simp
  qed
qed

lemma valsCell_local:
  assumes "inFrame R s0 s" "localV R (length s0) (VRef a)" "v \<in> valsCell (cellAt s a)"
  shows "localV R (length s0) v"
proof (cases "a < length s")
  case True
  then show ?thesis
    using inFrame_vals [OF assms(1) True, of v] assms(2,3) by (simp add: cellAt_in)
next
  case False
  then show ?thesis using assms(3) by (simp add: cellAt_out)
qed

lemma inFrame_setProp:
  assumes "inFrame R s0 s" "localV R (length s0) v" "localV R (length s0) x"
    and "setProp s v k x = Inr s'"
  shows "inFrame R s0 s'"
proof (cases v)
  case (VRef a)
  with assms(4) obtain es where es: "cellAt s a = ObjCell es"
    and s': "s' = s[a := ObjCell (AList.update k x es)]"
    by (auto split: cell.splits)
  have "localV R (length s0) w" if "w \<in> valsCell (ObjCell (AList.update k x es))" for w
  proof -
    from that have "w = x \<or> w \<in> snd ` set es"
      using set_update_subset [of k x es] by auto
    then show ?thesis
      using assms(3) valsCell_local [OF assms(1) assms(2) [unfolded VRef], of w]
      by (auto simp: es)
  qed
  then show ?thesis
    unfolding s' using assms(1,2) VRef by (intro inFrame_write) auto
qed (use assms(4) in simp_all)

lemma set_delete_subset: "set (AList.delete k al) \<subseteq> set al"
  by (induction al) auto

lemma inFrame_deleteProp:
  assumes "inFrame R s0 s" "localV R (length s0) v"
  shows "inFrame R s0 (deleteProp s v k)"
proof (cases v)
  case (VRef a)
  show ?thesis
  proof (cases "cellAt s a")
    case (ObjCell es)
    have "localV R (length s0) w" if "w \<in> valsCell (ObjCell (AList.delete k es))" for w
    proof -
      from that have "w \<in> snd ` set es" using set_delete_subset [of k es] by auto
      then show ?thesis
        using valsCell_local [OF assms(1) assms(2) [unfolded VRef], of w] by (simp add: ObjCell)
    qed
    then have "inFrame R s0 (s[a := ObjCell (AList.delete k es)])"
      using assms(2) VRef by (intro inFrame_write [OF assms(1)]) auto
    then show ?thesis by (simp add: VRef ObjCell)
  next
    case (ArrCell xs)
    then show ?thesis using assms VRef by simp
  qed
qed (use assms in simp_all)

lemma getOwn_local:
  assumes "inFrame R s0 s" "localV R (length s0) v" "getOwn s v k = Some x"
  shows "localV R (length s0) x"
proof (cases v)
  case (VRef a)
  with assms(3) obtain es where es: "cellAt s a = ObjCell es" and "map_of es k = Some x"
    by (auto split: cell.splits)
  then have "(k, x) \<in> set es" by (auto dest: map_of_SomeD)
  then have "x \<in> valsCell (cellAt s a)"
    unfolding es by (force simp: image_iff)
  then show ?thesis
    using valsCell_local [OF assms(1) assms(2) [unfolded VRef]] by simp
qed (use assms(3) in simp_all)

lemma getProp_local:
  assumes "inFrame R s0 s" "localV R (length s0) v" "getProp s v k = Inr (Some x)"
  shows "localV R (length s0) x"
proof -
  from assms(3) have "getOwn s v k = Some x" by (cases v) auto
  then show ?thesis by (rule getOwn_local [OF assms(1,2)])
qed

lemma indexed_vals: "(k, x) \<in> set (indexed xs) \<Longrightarrow> x \<in> set xs"
  unfolding indexed_def by (auto dest: set_zip_rightD)

lemma spreadH_local:
  assumes "inFrame R s0 s" "localV R (length s0) v" "(k, x) \<in> set (spreadH s v)"
  shows "localV R (length s0) x"
proof (cases v)
  case (VRef a)
  have "x \<in> valsCell (cellAt s a)"
  proof (cases "cellAt s a")
    case (ObjCell es)
    then show ?thesis using assms(3) VRef by (force simp: image_iff)
  next
    case (ArrCell xs)
    then show ?thesis using assms(3) VRef by (auto dest: indexed_vals)
  qed
  then show ?thesis
    using valsCell_local [OF assms(1) assms(2) [unfolded VRef]] by simp
next
  case (VStr str)
  then show ?thesis using assms(3) by (auto dest!: indexed_vals)
qed (use assms(3) in simp_all)

lemma entriesH_local:
  assumes "inFrame R s0 s" "localV R (length s0) v" "entriesH s v = Inr es" "(k, x) \<in> set es"
  shows "localV R (length s0) x"
proof -
  from assms(3) have "es = spreadH s v" by (cases v) auto
  with assms(4) have "(k, x) \<in> set (spreadH s v)" by simp
  then show ?thesis by (rule spreadH_local [OF assms(1,2)])
qed

lemma fromTree_inFrame:
  "inFrame R s0 s \<Longrightarrow> fromTree j s = (v, s') \<Longrightarrow>
     inFrame R s0 s' \<and> localV R (length s0) v"
  "inFrame R s0 s \<Longrightarrow> fromTreeList js s = (vs, s') \<Longrightarrow>
     inFrame R s0 s' \<and> (\<forall>v \<in> set vs. localV R (length s0) v)"
  "inFrame R s0 s \<Longrightarrow> fromTreeEntries es s = (fs, s') \<Longrightarrow>
     inFrame R s0 s' \<and> (\<forall>v \<in> snd ` set fs. localV R (length s0) v)"
proof (induction j s and js s and es s arbitrary: v s' and vs s' and fs s'
    rule: fromTree_fromTreeList_fromTreeEntries.induct)
  case (5 i xs s)
  from "5.prems"(2) obtain vs s1 where l: "fromTreeList xs s = (vs, s1)"
    and a: "alloc (ArrCell vs) s1 = (v, s')"
    by (auto split: prod.splits)
  from "5.IH" [OF "5.prems"(1) l] inFrame_alloc [OF _ _ a, of R s0]
  show ?case by auto
next
  case (6 es s)
  from "6.prems"(2) obtain fs s1 where l: "fromTreeEntries es s = (fs, s1)"
    and a: "alloc (ObjCell fs) s1 = (v, s')"
    by (auto split: prod.splits)
  from "6.IH" [OF "6.prems"(1) l] inFrame_alloc [OF _ _ a, of R s0]
  show ?case by auto
next
  case (8 x xs s)
  from "8.prems"(2) obtain v1 s1 vs2 where a: "fromTree x s = (v1, s1)"
    and b: "fromTreeList xs s1 = (vs2, s')" and vs: "vs = v1 # vs2"
    by (auto split: prod.splits)
  from "8.IH"(1) [OF "8.prems"(1) a] have 1: "inFrame R s0 s1" "localV R (length s0) v1" by auto
  from "8.IH"(2) [OF a [symmetric] 1(1) b] 1(2) show ?case by (auto simp: vs)
next
  case (10 k x es s)
  from "10.prems"(2) obtain v1 s1 fs2 where a: "fromTree x s = (v1, s1)"
    and b: "fromTreeEntries es s1 = (fs2, s')" and fs: "fs = (k, v1) # fs2"
    by (auto split: prod.splits)
  from "10.IH"(1) [OF "10.prems"(1) a] have 1: "inFrame R s0 s1" "localV R (length s0) v1" by auto
  from "10.IH"(2) [OF a [symmetric] 1(1) b] 1(2) show ?case by (auto simp: fs)
qed auto

lemma jsonCloneH_inFrame:
  assumes "inFrame R s0 s" "jsonCloneH depth v s = (s', out)"
  shows "inFrame R s0 s'" "out = Inr r \<Longrightarrow> localV R (length s0) r"
  using assms fromTree_inFrame(1) [of R s0 s]
  by (auto simp: jsonCloneH_def split: sum.splits prod.splits)


subsection \<open>\<^verbatim>\<open>deepMerge\<close> and \<^verbatim>\<open>deleteNestedKey\<close>\<close>

lemma deepMergeH_inFrame:
  "inFrame R s0 s \<Longrightarrow> localV R (length s0) target \<Longrightarrow> localV R (length s0) source \<Longrightarrow>
   deepMergeH depth target source s = (s', out) \<Longrightarrow>
   inFrame R s0 s' \<and> (\<forall>r. out = Inr r \<longrightarrow> localV R (length s0) r)"
  "inFrame R s0 s \<Longrightarrow> localV R (length s0) result \<Longrightarrow>
   (\<And>k x. (k, x) \<in> set es \<Longrightarrow> localV R (length s0) x) \<Longrightarrow>
   deepMergeLoopH depth result es s = (s', out') \<Longrightarrow> inFrame R s0 s'"
proof (induction depth target source s and depth result es s
    arbitrary: s' out and s' out' rule: deepMergeH_deepMergeLoopH.induct)
  case (1 target source s)
  then show ?case by auto
next
  case (2 depth target source s)
  obtain result s1 where a: "alloc (ObjCell (spreadH s target)) s = (result, s1)"
    by (cases "alloc (ObjCell (spreadH s target)) s")
  have sv: "localV R (length s0) v" if "v \<in> valsCell (ObjCell (spreadH s target))" for v
    using that spreadH_local [OF "2.prems"(1,2)] by auto
  have f1: "inFrame R s0 s1" and lr: "localV R (length s0) result"
    using inFrame_alloc [OF "2.prems"(1) sv a] by blast+
  show ?case
  proof (cases "entriesH s1 source")
    case (Inl e)
    then show ?thesis using "2.prems"(4) a f1 by auto
  next
    case (Inr es)
    obtain s2 o2 where l: "deepMergeLoopH depth result es s1 = (s2, o2)"
      by (cases "deepMergeLoopH depth result es s1")
    have "inFrame R s0 s2"
      using "2.IH" [OF a [symmetric] Inr f1 lr _ l]
        entriesH_local [OF f1 "2.prems"(3) Inr] by blast
    then show ?thesis
      using "2.prems"(4) a Inr l lr by (auto split: sum.splits)
  qed
next
  case (3 depth result s)
  then show ?case by simp
next
  case (4 depth result key "value" rest s)
  let ?step = "(if isPlainObject s value
            then (case getOwn s result key of
                    Some old \<Rightarrow>
                      if isObjectOrArray old then deepMergeH depth old value s
                      else (s, Inr value)
                  | None \<Rightarrow> (s, Inr value))
            else (s, Inr value))"
  obtain s1 o1 where st: "?step = (s1, o1)" by (cases ?step)
  have lv: "localV R (length s0) value" by (rule "4.prems"(3) [of key]) simp
  have lrest: "localV R (length s0) x" if "(k, x) \<in> set rest" for k x
    by (rule "4.prems"(3) [of k]) (use that in simp)
  have 1: "inFrame R s0 s1 \<and> (\<forall>x. o1 = Inr x \<longrightarrow> localV R (length s0) x)"
  proof (cases "isPlainObject s value")
    case False
    then show ?thesis using st "4.prems"(1) lv by auto
  next
    case True
    show ?thesis
    proof (cases "getOwn s result key")
      case None
      then show ?thesis using st True "4.prems"(1) lv by auto
    next
      case (Some old)
      show ?thesis
      proof (cases "isObjectOrArray old")
        case False
        then show ?thesis using st True Some "4.prems"(1) lv by auto
      next
        case io: True
        have lo: "localV R (length s0) old"
          by (rule getOwn_local [OF "4.prems"(1,2) Some])
        have "deepMergeH depth old value s = (s1, o1)" using st True Some io by simp
        from "4.IH"(1) [OF True Some io "4.prems"(1) lo lv this] show ?thesis .
      qed
    qed
  qed
  show ?case
  proof (cases o1)
    case (Inl e)
    then show ?thesis using "4.prems"(4) st 1 by auto
  next
    case (Inr x)
    show ?thesis
    proof (cases "setProp s1 result key x")
      case (Inl e)
      then show ?thesis using "4.prems"(4) st Inr 1 by auto
    next
      case sp: (Inr s2)
      have f2: "inFrame R s0 s2"
        using inFrame_setProp [OF _ "4.prems"(2) _ sp] 1 Inr by blast
      have "deepMergeLoopH depth result rest s2 = (s', out')"
        using "4.prems"(4) st Inr sp by simp
      from "4.IH"(2) [OF st [symmetric] Inr sp f2 "4.prems"(2) lrest this]
      show ?thesis .
    qed
  qed
qed

lemma deletePathH_inFrame:
  "inFrame R s0 s \<Longrightarrow> localV R (length s0) cur \<Longrightarrow> inFrame R s0 (deletePathH cur ks s)"
proof (induction cur ks s rule: deletePathH.induct)
  case (1 cur s)
  then show ?case by simp
next
  case (2 cur k s)
  then show ?case by (simp add: inFrame_deleteProp)
next
  case (3 cur k k' ks s)
  show ?case
  proof (cases "getOwn s cur k")
    case None
    then show ?thesis using "3.prems" by simp
  next
    case (Some child)
    have "localV R (length s0) child" by (rule getOwn_local [OF "3.prems" Some])
    then show ?thesis using 3 Some by simp
  qed
qed

lemma deleteKeysH_inFrame:
  "inFrame R s0 s \<Longrightarrow> localV R (length s0) merged \<Longrightarrow>
   deleteKeysH merged language fileName dks s = (s', out) \<Longrightarrow> inFrame R s0 s'"
proof (induction merged language fileName dks s arbitrary: s' out rule: deleteKeysH.induct)
  case (1 merged language fileName s)
  then show ?case by simp
next
  case (2 merged language fileName deletedKey rest s)
  show ?case
  proof (cases "getOwn s merged language")
    case None
    then show ?thesis using "2.prems" by simp
  next
    case (Some ml)
    have lml: "localV R (length s0) ml" by (rule getOwn_local [OF "2.prems"(1,2) Some])
    show ?thesis
    proof (cases "getProp s ml fileName")
      case (Inl e)
      then show ?thesis using "2.prems" Some by simp
    next
      case (Inr od)
      show ?thesis
      proof (cases od)
        case None
        then show ?thesis using "2.prems" Some Inr by simp
      next
        case sd: (Some doc)
        have ld: "localV R (length s0) doc"
          by (rule getProp_local [OF "2.prems"(1) lml Inr [unfolded sd]])
        have f: "inFrame R s0 (deleteNestedKeyH doc deletedKey s)"
          unfolding deleteNestedKeyH_def by (rule deletePathH_inFrame [OF "2.prems"(1) ld])
        show ?thesis
        proof (cases "doc = VNull")
          case True
          then show ?thesis using "2.prems" Some Inr sd by simp
        next
          case False
          then have "deleteKeysH merged language fileName rest (deleteNestedKeyH doc deletedKey s)
              = (s', out)"
            using "2.prems"(3) Some Inr sd by (cases doc) simp_all
          with False Some Inr sd f "2.prems"(2) show ?thesis
            by (cases doc) (auto intro: "2.IH")
        qed
      qed
    qed
  qed
qed


subsection \<open>\<^verbatim>\<open>mergeTranslations\<close>\<close>

lemma mergeNewFilesH_inFrame:
  "inFrame R s0 s \<Longrightarrow> localV R (length s0) merged \<Longrightarrow>
   (\<And>k x. (k, x) \<in> set es \<Longrightarrow> localV R (length s0) x) \<Longrightarrow>
   mergeNewFilesH depth merged language es s = (s', out) \<Longrightarrow> inFrame R s0 s'"
proof (induction depth merged language es s arbitrary: s' out rule: mergeNewFilesH.induct)
  case (1 depth merged language s)
  then show ?case by simp
next
  case (2 depth merged language fileName newContent rest s)
  have ln: "localV R (length s0) newContent" by (rule "2.prems"(3) [of fileName]) simp
  have lrest: "localV R (length s0) x" if "(k, x) \<in> set rest" for k x
    by (rule "2.prems"(3) [of k]) (use that in simp)
  show ?case
  proof (cases "getOwn s merged language")
    case None
    then show ?thesis using "2.prems" by simp
  next
    case (Some ml)
    have lml: "localV R (length s0) ml" by (rule getOwn_local [OF "2.prems"(1,2) Some])
    let ?step = "(case getProp s ml fileName of
                   Inl e \<Rightarrow> (s, Inl e)
                 | Inr None \<Rightarrow> (s, Inr newContent)
                 | Inr (Some old) \<Rightarrow>
                     if truthyV old then deepMergeH depth old newContent s
                     else (s, Inr newContent))"
    obtain s1 o1 where st: "?step = (s1, o1)" by (cases ?step)
    have 1: "inFrame R s0 s1 \<and> (\<forall>x. o1 = Inr x \<longrightarrow> localV R (length s0) x)"
    proof (cases "getProp s ml fileName")
      case (Inl e)
      then show ?thesis using st "2.prems"(1) by auto
    next
      case (Inr oo)
      show ?thesis
      proof (cases oo)
        case None
        then show ?thesis using st Inr "2.prems"(1) ln by auto
      next
        case so: (Some old)
        have lo: "localV R (length s0) old"
          by (rule getProp_local [OF "2.prems"(1) lml Inr [unfolded so]])
        show ?thesis
        proof (cases "truthyV old")
          case True
          then have "deepMergeH depth old newContent s = (s1, o1)" using st Inr so by simp
          from deepMergeH_inFrame(1) [OF "2.prems"(1) lo ln this] show ?thesis .
        next
          case False
          then show ?thesis using st Inr so "2.prems"(1) ln by auto
        qed
      qed
    qed
    show ?thesis
    proof (cases o1)
      case (Inl e)
      then show ?thesis using "2.prems"(4) Some st 1 by auto
    next
      case (Inr x)
      show ?thesis
      proof (cases "setProp s1 ml fileName x")
        case (Inl e)
        then show ?thesis using "2.prems"(4) Some st Inr 1 by auto
      next
        case sp: (Inr s2)
        have f2: "inFrame R s0 s2"
          using inFrame_setProp [OF _ lml _ sp] 1 Inr by blast
        have "mergeNewFilesH depth merged language rest s2 = (s', out)"
          using "2.prems"(4) Some st Inr sp by simp
        from "2.IH" [OF Some st [symmetric] Inr sp f2 "2.prems"(2) lrest this]
        show ?thesis .
      qed
    qed
  qed
qed

lemma applyDeletionsH_inFrame:
  "inFrame R s0 s \<Longrightarrow> localV R (length s0) merged \<Longrightarrow>
   applyDeletionsH c merged language fs s = (s', out) \<Longrightarrow> inFrame R s0 s'"
proof (induction c merged language fs s arbitrary: s' out rule: applyDeletionsH.induct)
  case (1 c merged language s)
  then show ?case by simp
next
  case (2 c merged language fileName rest s)
  show ?case
  proof (cases "map_of (deletedKeys c) fileName")
    case None
    then show ?thesis using 2 by simp
  next
    case (Some dks)
    show ?thesis
    proof (cases "getOwn s merged language")
      case None
      then show ?thesis using "2.prems" Some by simp
    next
      case sm: (Some ml)
      show ?thesis
      proof (cases "getProp s ml fileName")
        case (Inl e)
        then show ?thesis using "2.prems" Some sm by simp
      next
        case (Inr od)
        show ?thesis
        proof (cases od)
          case None
          then show ?thesis using 2 Some sm Inr by simp
        next
          case sd: (Some doc)
          show ?thesis
          proof (cases "truthyV doc")
            case False
            then show ?thesis using 2 Some sm Inr sd by simp
          next
            case True
            obtain s1 o1 where dk: "deleteKeysH merged language fileName dks s = (s1, o1)"
              by (cases "deleteKeysH merged language fileName dks s")
            have f1: "inFrame R s0 s1"
              by (rule deleteKeysH_inFrame [OF "2.prems"(1,2) dk])
            show ?thesis
            proof (cases o1)
              case (Inl e)
              then show ?thesis using "2.prems"(3) Some sm Inr sd True dk f1 by simp
            next
              case u: (Inr u)
              have "applyDeletionsH c merged language rest s1 = (s', out)"
                using "2.prems"(3) Some sm Inr sd True dk u by simp
              from "2.IH"(3) [OF Some sm Inr sd True dk [symmetric] u f1 "2.prems"(2) this]
              show ?thesis .
            qed
          qed
        qed
      qed
    qed
  qed
qed

lemma ensureLanguage_inFrame:
  assumes "inFrame R s0 s" "localV R (length s0) merged"
    and "(case alloc (ObjCell []) s of (fresh, s1) \<Rightarrow> setProp s1 merged language fresh) = Inr s'"
  shows "inFrame R s0 s'"
proof -
  obtain fresh s1 where a: "alloc (ObjCell []) s = (fresh, s1)"
    by (cases "alloc (ObjCell []) s")
  have "inFrame R s0 s1" "localV R (length s0) fresh"
    using inFrame_alloc [OF assms(1) _ a] by auto
  moreover have "setProp s1 merged language fresh = Inr s'" using assms(3) a by simp
  ultimately show ?thesis using inFrame_setProp assms(2) by blast
qed

lemma mergeLanguageH_inFrame:
  assumes "inFrame R s0 s" "localV R (length s0) merged" "localV R (length s0) newTranslations"
    and "mergeLanguageH depth merged newTranslations c language s = (s', out)"
  shows "inFrame R s0 s'"
proof -
  let ?ensure = "(case getProp s merged language of
              Inl e \<Rightarrow> Inl e
            | Inr (Some ml) \<Rightarrow>
                if truthyV ml then Inr s
                else (case alloc (ObjCell []) s of (fresh, s1) \<Rightarrow> setProp s1 merged language fresh)
            | Inr None \<Rightarrow>
                (case alloc (ObjCell []) s of (fresh, s1) \<Rightarrow> setProp s1 merged language fresh))"
  show ?thesis
  proof (cases ?ensure)
    case (Inl e)
    then show ?thesis using assms(1,4) by (simp add: mergeLanguageH_def)
  next
    case (Inr s1)
    have f1: "inFrame R s0 s1"
      using Inr assms(1) ensureLanguage_inFrame [OF assms(1,2), of language s1]
      by (auto split: sum.splits option.splits if_splits)
    let ?new = "(case getProp s1 newTranslations language of
                   Inl e \<Rightarrow> (s1, Inl e)
                 | Inr None \<Rightarrow> (s1, Inr ())
                 | Inr (Some nl) \<Rightarrow>
                     if truthyV nl
                     then (case entriesH s1 nl of
                             Inl e \<Rightarrow> (s1, Inl e)
                           | Inr es \<Rightarrow> mergeNewFilesH depth merged language es s1)
                     else (s1, Inr ()))"
    obtain s2 o2 where n: "?new = (s2, o2)" by (cases ?new)
    have f2: "inFrame R s0 s2"
    proof (cases "getProp s1 newTranslations language")
      case (Inl e)
      then show ?thesis using n f1 by simp
    next
      case gp: (Inr onl)
      show ?thesis
      proof (cases onl)
        case None
        then show ?thesis using n gp f1 by simp
      next
        case (Some nl)
        have lnl: "localV R (length s0) nl"
          by (rule getProp_local [OF f1 assms(3) gp [unfolded Some]])
        show ?thesis
        proof (cases "truthyV nl")
          case False
          then show ?thesis using n gp Some f1 by simp
        next
          case True
          show ?thesis
          proof (cases "entriesH s1 nl")
            case (Inl e)
            then show ?thesis using n gp Some True f1 by simp
          next
            case es: (Inr es)
            have "mergeNewFilesH depth merged language es s1 = (s2, o2)"
              using n gp Some True es by simp
            then show ?thesis
              using mergeNewFilesH_inFrame [OF f1 assms(2)] entriesH_local [OF f1 lnl es]
              by blast
          qed
        qed
      qed
    qed
    show ?thesis
    proof (cases o2)
      case (Inl e)
      then show ?thesis using assms(4) Inr n f2 by (simp add: mergeLanguageH_def)
    next
      case u: (Inr u)
      have "applyDeletionsH c merged language (modifiedFiles c) s2 = (s', out)"
        using assms(4) Inr n u by (simp add: mergeLanguageH_def)
      then show ?thesis by (rule applyDeletionsH_inFrame [OF f2 assms(2)])
    qed
  qed
qed

lemma mergeLanguagesH_inFrame:
  "inFrame R s0 s \<Longrightarrow> localV R (length s0) merged \<Longrightarrow> localV R (length s0) newTranslations \<Longrightarrow>
   mergeLanguagesH depth merged newTranslations c langs s = (s', out) \<Longrightarrow> inFrame R s0 s'"
proof (induction langs arbitrary: s)
  case Nil
  then show ?case by simp
next
  case (Cons language rest)
  obtain s1 o1 where l: "mergeLanguageH depth merged newTranslations c language s = (s1, o1)"
    by (cases "mergeLanguageH depth merged newTranslations c language s")
  have f1: "inFrame R s0 s1" by (rule mergeLanguageH_inFrame [OF Cons.prems(1,2,3) l])
  show ?case
  proof (cases o1)
    case (Inl e)
    then show ?thesis using Cons.prems(4) l f1 by simp
  next
    case (Inr u)
    then have "mergeLanguagesH depth merged newTranslations c rest s1 = (s', out)"
      using Cons.prems(4) l by simp
    then show ?thesis by (rule Cons.IH [OF f1 Cons.prems(2,3)])
  qed
qed

lemma mergeTranslationsH_inFrame:
  assumes "inFrame R s0 s" "localV R (length s0) newTranslations"
  shows "inFrame R s0 (fst (mergeTranslationsH depth langs existingTranslations newTranslations c s))"
proof -
  obtain s1 o1 where cl: "jsonCloneH depth existingTranslations s = (s1, o1)"
    by (cases "jsonCloneH depth existingTranslations s")
  note f1 = jsonCloneH_inFrame [OF assms(1) cl]
  show ?thesis
  proof (cases o1)
    case (Inl e)
    then show ?thesis using cl f1(1) by (simp add: mergeTranslationsH_def)
  next
    case (Inr merged)
    obtain s2 o2 where l: "mergeLanguagesH depth merged newTranslations c langs s1 = (s2, o2)"
      by (cases "mergeLanguagesH depth merged newTranslations c langs s1")
    have "inFrame R s0 s2"
      by (rule mergeLanguagesH_inFrame [OF f1(1) f1(2) [OF Inr] assms(2) l])
    then show ?thesis
      using cl Inr l by (cases o2) (simp_all add: mergeTranslationsH_def)
  qed
qed

text \<open>
  C9, as amended. \<^verbatim>\<open>mergeTranslations\<close> writes to the objects it allocates (the
  copy made by \<^verbatim>\<open>JSON.parse(JSON.stringify(existingTranslations))\<close>, the results
  of \<^verbatim>\<open>deepMerge\<close>, the empty language entries) and to objects that
  \<^verbatim>\<open>newTranslations\<close> reaches, and to nothing else. Let \<open>R\<close> be a set of addresses
  that holds \<^verbatim>\<open>newTranslations\<close> and is closed under the references of its cells.
  Every object of the store outside \<open>R\<close> is the same after the call, whether the
  call returns or raises. So the caller's \<^verbatim>\<open>existingTranslations\<close> is unchanged
  whenever none of its objects is reached from \<^verbatim>\<open>newTranslations\<close>, as in a run of
  \<^verbatim>\<open>translateIncremental\<close>, where the two come from separate calls of
  \<^verbatim>\<open>JSON.parse\<close>. (A run that stores a named property on an array ends in the
  model with \<open>ArrayProperty\<close>; the statement covers it up to that point.)
\<close>

theorem merge_leaves_other_objects:
  assumes "\<forall>a \<in> R. \<forall>b. VRef b \<in> valsCell (cellAt s a) \<longrightarrow> b \<in> R"
    and "\<forall>b. newTranslations = VRef b \<longrightarrow> b \<in> R"
  shows "\<forall>a < length s. a \<notin> R \<longrightarrow>
     fst (mergeTranslationsH depth langs existingTranslations newTranslations c s) ! a = s ! a"
proof -
  have "inFrame R s s"
  proof (rule inFrameI)
    fix a v assume a: "a < length s" "a \<in> R \<or> length s \<le> a" "v \<in> valsCell (s ! a)"
    then have "a \<in> R" by simp
    then show "localV R (length s) v"
      using assms(1) a by (cases v) (auto simp: cellAt_in)
  qed simp_all
  moreover have "localV R (length s) newTranslations"
    using assms(2) by (cases newTranslations) auto
  ultimately have "inFrame R s
      (fst (mergeTranslationsH depth langs existingTranslations newTranslations c s))"
    by (rule mergeTranslationsH_inFrame)
  then show ?thesis using inFrame_old by blast
qed

text \<open>
  The instance is scenario C of the specification with the change of scenario B:
  the Spanish document \<^verbatim>\<open>{greeting: "Hola", farewell: "Adios"}\<close> at address 2,
  under \<^verbatim>\<open>existingTranslations\<close> at address 0, and the answer
  \<^verbatim>\<open>{es: {"a.json": {greeting: "Hola2"}}}\<close> at addresses 3 to 5. The merge returns
  a new object, and the three objects of \<^verbatim>\<open>existingTranslations\<close> are as before.
\<close>

theorem merge_leaves_other_objects_witness:
  "(let s = [ObjCell [(''es'', VRef 1)], ObjCell [(''a.json'', VRef 2)],
             ObjCell [(''greeting'', VStr ''Hola''), (''farewell'', VStr ''Adios'')],
             ObjCell [(''es'', VRef 4)], ObjCell [(''a.json'', VRef 5)],
             ObjCell [(''greeting'', VStr ''Hola2'')]];
        r = mergeTranslationsH 10 targetLanguages (VRef 0) (VRef 3)
              (detectChanges
                 [(''a.json'', [(''greeting'', JStr ''Hi''), (''farewell'', JStr ''Bye'')])]
                 [(''a.json'', [(''greeting'', JStr ''Hello'')])]) s
    in snd r = Inr (VRef 8)
     \<and> fst r ! 0 = ObjCell [(''es'', VRef 1)]
     \<and> fst r ! 1 = ObjCell [(''a.json'', VRef 2)]
     \<and> fst r ! 2 = ObjCell [(''greeting'', VStr ''Hola''), (''farewell'', VStr ''Adios'')]
     \<and> fst r ! 10 = ObjCell [(''greeting'', VStr ''Hola2'')])"
proof -
  let ?s = "[ObjCell [(''es'', VRef 1)], ObjCell [(''a.json'', VRef 2)],
             ObjCell [(''greeting'', VStr ''Hola''), (''farewell'', VStr ''Adios'')],
             ObjCell [(''es'', VRef 4)], ObjCell [(''a.json'', VRef 5)],
             ObjCell [(''greeting'', VStr ''Hola2'')]]"
  let ?c = "detectChanges
                 [(''a.json'', [(''greeting'', JStr ''Hi''), (''farewell'', JStr ''Bye'')])]
                 [(''a.json'', [(''greeting'', JStr ''Hello'')])]"
  let ?r = "mergeTranslationsH 10 targetLanguages (VRef 0) (VRef 3) ?c ?s"
  have closed: "\<forall>a \<in> {3, 4, 5}. \<forall>b. VRef b \<in> valsCell (cellAt ?s a) \<longrightarrow> b \<in> {3, 4, 5::nat}"
    by (simp add: cellAt_def)
  have new: "\<forall>b. VRef 3 = VRef b \<longrightarrow> b \<in> {3, 4, 5::nat}"
    by simp
  have frame: "\<forall>a < length ?s. a \<notin> {3, 4, 5} \<longrightarrow> fst ?r ! a = ?s ! a"
    by (rule merge_leaves_other_objects [OF closed new])
  have "fst ?r ! 0 = ?s ! 0" "fst ?r ! 1 = ?s ! 1" "fst ?r ! 2 = ?s ! 2"
    using frame by simp_all
  moreover have "snd ?r = Inr (VRef 8)" "fst ?r ! 10 = ObjCell [(''greeting'', VStr ''Hola2'')]"
    by code_simp+
  ultimately show ?thesis by (simp add: Let_def)
qed

text \<open>
  C9 as stated fails when one document object is held by both arguments. The
  German document at address 3 stands under \<^verbatim>\<open>existingTranslations\<close> (address 0)
  and, as the Spanish document, under \<^verbatim>\<open>newTranslations\<close> (address 4). The copy has
  no Spanish \<^verbatim>\<open>a.json\<close>, so \<^verbatim>\<open>mergedTranslations[language][fileName] = newContent\<close>
  stores the object itself, and \<^verbatim>\<open>deleteNestedKey\<close> then removes \<^verbatim>\<open>farewell\<close> from
  it: the merge returns, and the caller's German document has lost a key.
\<close>

theorem merge_mutates_shared_document:
  "(let s = [ObjCell [(''de'', VRef 1), (''es'', VRef 2)], ObjCell [(''a.json'', VRef 3)],
             ObjCell [],
             ObjCell [(''greeting'', VStr ''Hallo''), (''farewell'', VStr ''Tschuess'')],
             ObjCell [(''es'', VRef 5)], ObjCell [(''a.json'', VRef 3)]];
        r = mergeTranslationsH 10 targetLanguages (VRef 0) (VRef 4)
              (detectChanges
                 [(''a.json'', [(''greeting'', JStr ''Hi''), (''farewell'', JStr ''Bye'')])]
                 [(''a.json'', [(''greeting'', JStr ''Hi'')])]) s
    in snd r = Inr (VRef 9)
     \<and> getOwn s (VRef 0) ''de'' = Some (VRef 1)
     \<and> getOwn s (VRef 1) ''a.json'' = Some (VRef 3)
     \<and> cellAt s 3 = ObjCell [(''greeting'', VStr ''Hallo''), (''farewell'', VStr ''Tschuess'')]
     \<and> getOwn (fst r) (VRef 0) ''de'' = Some (VRef 1)
     \<and> getOwn (fst r) (VRef 1) ''a.json'' = Some (VRef 3)
     \<and> cellAt (fst r) 3 = ObjCell [(''greeting'', VStr ''Hallo'')])"
  by code_simp

end
